theory Spec2Isabelle
  imports Complex_Main "HOL-Library.Word"
begin

unbundle bit_operations_syntax

section \<open>JavaScript numbers on the state-machine path\<close>

text \<open>
  The order/chaos state machine (\<^verbatim>\<open>js/state-machine.js\<close>) computes with IEEE-754
  binary64 numbers. A finite double is a rational number, so the type of finite doubles is
  \<open>rat\<close>, and every arithmetic operation of the source is the exact rational operation
  followed by \<open>fl\<close>, rounding to the nearest double with ties to even. \<open>fl\<close> scales the
  magnitude into the binade \<open>[2^52, 2^53)\<close> (the exponent never goes below -1074, which
  gives the subnormal numbers), rounds to an integer and scales back. Overflow to Infinity
  is outside the model; a division by zero, whose JavaScript result is Infinity or NaN, is
  reported as \<open>None\<close>.
\<close>

type_synonym double = rat

definition pow2 :: "int \<Rightarrow> rat" where
  "pow2 e = (if 0 \<le> e then 2 ^ nat e else 1 / 2 ^ nat (- e))"

definition rne :: "rat \<Rightarrow> int" where
  "rne q = (let f = \<lfloor>q\<rfloor>; r = q - of_int f in
     if r < 1 / 2 then f
     else if 1 / 2 < r then f + 1
     else if even f then f else f + 1)"

fun binade :: "nat \<Rightarrow> rat \<Rightarrow> int \<Rightarrow> rat \<times> int" where
  "binade 0 q e = (q, e)"
| "binade (Suc n) q e =
     (if 2 ^ 53 \<le> q then binade n (q / 2) (e + 1)
      else if q < 2 ^ 52 \<and> - 1074 < e then binade n (q * 2) (e - 1)
      else (q, e))"

definition fl :: "rat \<Rightarrow> double" where
  "fl q = (if q = 0 then 0
     else let (m, e) = binade 2200 \<bar>q\<bar> 0
          in sgn q * of_int (rne m) * pow2 e)"

definition js_add :: "double \<Rightarrow> double \<Rightarrow> double" where
  "js_add a b = fl (a + b)"

definition js_sub :: "double \<Rightarrow> double \<Rightarrow> double" where
  "js_sub a b = fl (a - b)"

definition js_mul :: "double \<Rightarrow> double \<Rightarrow> double" where
  "js_mul a b = fl (a * b)"

definition js_div :: "double \<Rightarrow> double \<Rightarrow> double option" where
  "js_div a b = (if b = 0 then None else Some (fl (a / b)))"

text \<open>
  \<^verbatim>\<open>Math.pow(x, n)\<close> for a small integer exponent, taken as correctly rounded.
\<close>

definition js_pow :: "double \<Rightarrow> nat \<Rightarrow> double" where
  "js_pow x n = fl (x ^ n)"

section \<open>The order/chaos state machine\<close>

datatype State = ORDERED | SHATTERING | CHAOS | REASSEMBLING

record StateMachine =
  state :: State
  tOrder :: double
  transitionProgress :: double
  transitionDuration :: double
  elapsed :: double

text \<open>The constructor.\<close>

definition new_StateMachine :: StateMachine where
  "new_StateMachine =
     \<lparr>state = ORDERED, tOrder = 1, transitionProgress = 0,
      transitionDuration = 0, elapsed = 0\<rparr>"

definition easeOutCubic :: "double \<Rightarrow> double" where
  "easeOutCubic t = js_sub 1 (js_pow (js_sub 1 t) 3)"

definition easeInOutQuad :: "double \<Rightarrow> double option" where
  "easeInOutQuad t =
     (if t < fl (1 / 2) then Some (js_mul (js_mul 2 t) t)
      else map_option (js_sub 1)
             (js_div (js_pow (js_add (js_mul (- 2) t) 2) 2) 2))"

definition canClick :: "StateMachine \<Rightarrow> bool" where
  "canClick m = (state m = ORDERED \<or> state m = CHAOS)"

definition click :: "StateMachine \<Rightarrow> StateMachine" where
  "click m =
     (if state m = ORDERED then
        m\<lparr>state := SHATTERING, transitionDuration := fl (3 / 2),
          transitionProgress := 0, elapsed := 0\<rparr>
      else if state m = CHAOS then
        m\<lparr>state := REASSEMBLING, transitionDuration := fl 2,
          transitionProgress := 0, elapsed := 0\<rparr>
      else m)"

definition update :: "double \<Rightarrow> StateMachine \<Rightarrow> StateMachine option" where
  "update dt m =
     (if state m = SHATTERING then
        (let el = js_add (elapsed m) dt in
         case js_div el (transitionDuration m) of
           None \<Rightarrow> None
         | Some q \<Rightarrow>
             (let p = min q 1;
                  m1 = m\<lparr>elapsed := el, transitionProgress := p,
                         tOrder := js_sub 1 (easeOutCubic p)\<rparr>
              in Some (if 1 \<le> p then m1\<lparr>state := CHAOS, tOrder := 0\<rparr> else m1)))
      else if state m = REASSEMBLING then
        (let el = js_add (elapsed m) dt in
         case js_div el (transitionDuration m) of
           None \<Rightarrow> None
         | Some q \<Rightarrow>
             (let p = min q 1 in
              case easeInOutQuad p of
                None \<Rightarrow> None
              | Some t \<Rightarrow>
                  (let m1 = m\<lparr>elapsed := el, transitionProgress := p, tOrder := t\<rparr>
                   in Some (if 1 \<le> p then m1\<lparr>state := ORDERED, tOrder := 1\<rparr> else m1))))
      else Some m)"

text \<open>\<open>updates n dt m\<close>: \<^verbatim>\<open>update(dt)\<close> called \<open>n\<close> times in a row.\<close>

fun updates :: "nat \<Rightarrow> double \<Rightarrow> StateMachine \<Rightarrow> StateMachine option" where
  "updates 0 dt m = Some m"
| "updates (Suc n) dt m = (case update dt m of None \<Rightarrow> None | Some m' \<Rightarrow> updates n dt m')"

section \<open>Particles and vectors\<close>

text \<open>
  The physics, the histogram and the density splat compute with 32-bit and 64-bit floats.
  They are modelled over the real numbers: every operation is the exact one, without
  rounding, and NaN and the infinities do not exist. A \<^verbatim>\<open>vec3<f32>\<close> is a triple.
  The fallback renderer keeps its particles in one \<^verbatim>\<open>Float32Array\<close> of ten floats
  per particle, \<^verbatim>\<open>[x, y, z, vx, vy, vz, hx, hy, hz, speed]\<close>; the shaders use the
  \<^verbatim>\<open>Particle\<close> struct. Both are the record below, and the array is a list of them.
\<close>

type_synonym vec3 = "real \<times> real \<times> real"

record Particle =
  position :: vec3
  velocity :: vec3
  home_position :: vec3
  speed :: real

fun vadd :: "vec3 \<Rightarrow> vec3 \<Rightarrow> vec3" where
  "vadd (a, b, c) (x, y, z) = (a + x, b + y, c + z)"

fun vsub :: "vec3 \<Rightarrow> vec3 \<Rightarrow> vec3" where
  "vsub (a, b, c) (x, y, z) = (a - x, b - y, c - z)"

fun vscale :: "real \<Rightarrow> vec3 \<Rightarrow> vec3" where
  "vscale s (x, y, z) = (x * s, y * s, z * s)"

text \<open>WGSL \<^verbatim>\<open>length\<close> and \<^verbatim>\<open>normalize\<close> (\<open>v / length(v)\<close>).\<close>

fun vlength :: "vec3 \<Rightarrow> real" where
  "vlength (x, y, z) = sqrt (x ^ 2 + y ^ 2 + z ^ 2)"

definition normalize :: "vec3 \<Rightarrow> vec3" where
  "normalize v = vscale (1 / vlength v) v"

section \<open>The fallback renderer: lattice initialisation\<close>

definition PARTICLE_COUNT :: nat where
  "PARTICLE_COUNT = 512"

definition HIST_BINS :: nat where
  "HIST_BINS = 64"

text \<open>
  \<^verbatim>\<open>Math.ceil(Math.cbrt(n))\<close> for a natural number \<open>n\<close>: the least \<open>k\<close> whose
  cube reaches \<open>n\<close>.
\<close>

definition ceil_cbrt :: "nat \<Rightarrow> nat" where
  "ceil_cbrt n = length (takeWhile (\<lambda>k. k ^ 3 < n) [0..<Suc n])"

definition side :: nat where
  "side = ceil_cbrt (PARTICLE_COUNT div 2)"

definition spacing :: real where
  "spacing = 5 / real side"

text \<open>
  \<open>lattice_point off x y z\<close> is \<^verbatim>\<open>((x - side / 2 + off) * spacing, ...)\<close>: the
  corner atom of a cell has \<open>off = 0.5\<close>, its body-centre atom \<open>off = 1.0\<close>.
\<close>

definition lattice_point :: "real \<Rightarrow> nat \<Rightarrow> nat \<Rightarrow> nat \<Rightarrow> vec3" where
  "lattice_point off x y z =
     ((real x - real side / 2 + off) * spacing,
      (real y - real side / 2 + off) * spacing,
      (real z - real side / 2 + off) * spacing)"

definition new_particle :: "vec3 \<Rightarrow> Particle" where
  "new_particle p = \<lparr>position = p, velocity = (0, 0, 0), home_position = p, speed = 0\<rparr>"

text \<open>
  The particles written so far are a list, and the counter \<^verbatim>\<open>idx\<close> is its length.
  \<open>place\<close> is one guarded block \<^verbatim>\<open>if (idx < PARTICLE_COUNT) { ...; idx++ }\<close>.
  The three loops also test \<^verbatim>\<open>idx < PARTICLE_COUNT\<close>; once the array is full they
  stop, which is the same as running on with every block skipped.
\<close>

definition place :: "vec3 \<Rightarrow> Particle list \<Rightarrow> Particle list" where
  "place p ps = (if length ps < PARTICLE_COUNT then ps @ [new_particle p] else ps)"

definition init_cell :: "nat \<Rightarrow> nat \<Rightarrow> nat \<Rightarrow> Particle list \<Rightarrow> Particle list" where
  "init_cell z y x ps =
     place (lattice_point 1 x y z) (place (lattice_point (1 / 2) x y z) ps)"

definition initParticles :: "Particle list" where
  "initParticles =
     fold (\<lambda>z. fold (\<lambda>y. fold (\<lambda>x. init_cell z y x) [0..<side]) [0..<side]) [0..<side] []"

text \<open>
  Symmetry about the origin within a tolerance: every point has a point of the list within
  \<open>tol\<close> (in each coordinate) of its mirror image.
\<close>

fun near :: "real \<Rightarrow> vec3 \<Rightarrow> vec3 \<Rightarrow> bool" where
  "near tol (a, b, c) (x, y, z) = (\<bar>a - x\<bar> \<le> tol \<and> \<bar>b - y\<bar> \<le> tol \<and> \<bar>c - z\<bar> \<le> tol)"

definition symmetric_about_origin :: "real \<Rightarrow> vec3 list \<Rightarrow> bool" where
  "symmetric_about_origin tol ps =
     list_all (\<lambda>p. list_ex (\<lambda>q. near tol q (vscale (- 1) p)) ps) ps"

section \<open>The fallback renderer: physics and histogram\<close>

text \<open>
  One iteration of the particle loop of \<^verbatim>\<open>updatePhysics\<close>. The three values
  \<open>rx\<close>, \<open>ry\<close>, \<open>rz\<close> are what the three calls of \<^verbatim>\<open>rand()\<close> return; the
  linear-congruential generator itself is not modelled, so every statement below holds for
  whatever it returns.
\<close>

definition fallback_step :: "real \<Rightarrow> real \<Rightarrow> vec3 \<Rightarrow> Particle \<Rightarrow> Particle" where
  "fallback_step dt tOrd r p =
     (let springK = 12; noiseStr = 4; dampOrdered = 97 / 100; dampChaos = 999 / 1000;
          damping = dampChaos + (dampOrdered - dampChaos) * tOrd;
          (x, y, z) = position p; (vx, vy, vz) = velocity p;
          (hx, hy, hz) = home_position p; (rx, ry, rz) = r;
          dx = hx - x; dy = hy - y; dz = hz - z;
          fx = dx * springK * tOrd + rx * noiseStr * (1 - tOrd);
          fy = dy * springK * tOrd + ry * noiseStr * (1 - tOrd);
          fz = dz * springK * tOrd + rz * noiseStr * (1 - tOrd);
          vx1 = vx * damping + fx * dt;
          vy1 = vy * damping + fy * dt;
          vz1 = vz * damping + fz * dt;
          spd = sqrt (vx1 ^ 2 + vy1 ^ 2 + vz1 ^ 2);
          (vx2, vy2, vz2) =
            (if spd > 8 then let s = 8 / spd in (vx1 * s, vy1 * s, vz1 * s)
             else (vx1, vy1, vz1));
          x1 = x + vx2 * dt; y1 = y + vy2 * dt; z1 = z + vz2 * dt;
          speed1 = sqrt (vx2 ^ 2 + vy2 ^ 2 + vz2 ^ 2);
          distC = sqrt (x1 ^ 2 + y1 ^ 2 + z1 ^ 2);
          (vx3, vy3, vz3) =
            (if distC > 45 / 10 then
               let push = (distC - 45 / 10) * 2 * dt / distC
               in (vx2 - x1 * push, vy2 - y1 * push, vz2 - z1 * push)
             else (vx2, vy2, vz2))
      in \<lparr>position = (x1, y1, z1), velocity = (vx3, vy3, vz3),
          home_position = (hx, hy, hz), speed = speed1\<rparr>)"

text \<open>
  The particle loop: particle \<open>i\<close> consumes the values \<open>3 i\<close>, \<open>3 i + 1\<close> and
  \<open>3 i + 2\<close> of the stream \<open>rnd\<close> of this call. The list holds the whole array, that is
  \<open>PARTICLE_COUNT\<close> particles.
\<close>

fun physics_loop :: "real \<Rightarrow> real \<Rightarrow> (nat \<Rightarrow> real) \<Rightarrow> nat \<Rightarrow> Particle list \<Rightarrow> Particle list" where
  "physics_loop dt tOrd rnd k [] = []"
| "physics_loop dt tOrd rnd k (p # ps) =
     fallback_step dt tOrd (rnd k, rnd (k + 1), rnd (k + 2)) p
       # physics_loop dt tOrd rnd (k + 3) ps"

definition fallback_bin :: "real \<Rightarrow> int" where
  "fallback_bin spd = min \<lfloor>(spd / 8) * real HIST_BINS\<rfloor> (int HIST_BINS - 1)"

text \<open>
  \<^verbatim>\<open>hist[bin]++\<close> on a \<^verbatim>\<open>Uint32Array\<close>: the counter wraps at \<open>2^32\<close>, and a
  write outside the array is dropped.
\<close>

definition hist_incr :: "32 word list \<Rightarrow> int \<Rightarrow> 32 word list" where
  "hist_incr hist bin =
     (if 0 \<le> bin \<and> bin < int (length hist)
      then hist[nat bin := hist ! nat bin + 1] else hist)"

definition build_histogram :: "Particle list \<Rightarrow> 32 word list" where
  "build_histogram ps =
     fold (\<lambda>p hist. hist_incr hist (fallback_bin (speed p))) ps (replicate HIST_BINS 0)"

record WebGLFallback =
  particles :: "Particle list"
  pendingHistogram :: "32 word list option"

definition updatePhysics :: "real \<Rightarrow> real \<Rightarrow> (nat \<Rightarrow> real) \<Rightarrow> WebGLFallback \<Rightarrow> WebGLFallback" where
  "updatePhysics dt tOrd rnd r =
     (let ps = physics_loop dt tOrd rnd 0 (particles r)
      in r\<lparr>particles := ps, pendingHistogram := Some (build_histogram ps)\<rparr>)"

text \<open>
  \<open>frames n dt tOrd rnd r\<close>: \<open>n\<close> calls of \<^verbatim>\<open>updatePhysics\<close> with the same
  \<open>dt\<close> and \<open>tOrder\<close>, starting from \<open>r\<close>; \<open>rnd j\<close> is the random stream of
  call number \<open>j\<close>, counted from 0. (The argument is written \<open>tOrd\<close> here, \<open>tOrder\<close>
  being the state machine's field.)
\<close>

fun frames :: "nat \<Rightarrow> real \<Rightarrow> real \<Rightarrow> (nat \<Rightarrow> nat \<Rightarrow> real) \<Rightarrow> WebGLFallback \<Rightarrow> WebGLFallback" where
  "frames 0 dt tOrd rnd r = r"
| "frames (Suc n) dt tOrd rnd r = updatePhysics dt tOrd (rnd n) (frames n dt tOrd rnd r)"

section \<open>The GPU renderer: physics shader\<close>

record Uniforms =
  u_dt :: real
  u_t_order :: real
  damping_ordered :: real
  damping_chaos :: real
  noise_strength :: real
  spring_k :: real
  particle_count :: nat

text \<open>The uniforms as \<^verbatim>\<open>updateUniforms\<close> writes them.\<close>

definition physics_uniforms :: "real \<Rightarrow> real \<Rightarrow> Uniforms" where
  "physics_uniforms dt tOrd =
     \<lparr>u_dt = dt, u_t_order = tOrd, damping_ordered = 97 / 100,
      damping_chaos = 999 / 1000, noise_strength = 4, spring_k = 12,
      particle_count = 2048\<rparr>"

definition mix :: "real \<Rightarrow> real \<Rightarrow> real \<Rightarrow> real" where
  "mix a b t = a * (1 - t) + b * t"

text \<open>
  The body of \<^verbatim>\<open>main\<close> of the physics shader for one particle. \<open>rn\<close> holds the
  three values of \<^verbatim>\<open>randNormal\<close>; the hash and the Box-Muller transform are not
  modelled.
\<close>

definition physics_main :: "Uniforms \<Rightarrow> vec3 \<Rightarrow> Particle \<Rightarrow> Particle" where
  "physics_main u rn p =
     (let dt = u_dt u; t = u_t_order u;
          displacement = vsub (home_position p) (position p);
          spring_force = vscale t (vscale (spring_k u) displacement);
          noise_force = vscale (1 - t) (vscale (noise_strength u) rn);
          damping = mix (damping_chaos u) (damping_ordered u) t;
          v1 = vadd (vscale damping (velocity p)) (vscale dt (vadd spring_force noise_force));
          max_speed = 8;
          spd = vlength v1;
          v2 = (if spd > max_speed then vscale (max_speed / spd) v1 else v1);
          pos = vadd (position p) (vscale dt v2);
          dist_from_center = vlength pos;
          v3 = (if dist_from_center > 45 / 10 then
                  let push = vscale 2 (vscale (dist_from_center - 45 / 10) (normalize pos))
                  in vsub v2 (vscale dt push)
                else v2)
      in \<lparr>position = pos, velocity = v3, home_position = home_position p,
          speed = vlength v3\<rparr>)"

text \<open>The dispatch: invocation \<open>idx\<close> returns at once when \<open>idx \<ge> particle_count\<close>.\<close>

fun physics_dispatch :: "Uniforms \<Rightarrow> (nat \<Rightarrow> vec3) \<Rightarrow> nat \<Rightarrow> Particle list \<Rightarrow> Particle list" where
  "physics_dispatch u rn idx [] = []"
| "physics_dispatch u rn idx (p # ps) =
     (if idx \<ge> particle_count u then p else physics_main u (rn idx) p)
       # physics_dispatch u rn (Suc idx) ps"

section \<open>The GPU renderer: histogram shader\<close>

record HistUniforms =
  hist_particle_count :: nat
  num_bins :: nat
  max_speed :: real

definition hist_uniforms :: HistUniforms where
  "hist_uniforms = \<lparr>hist_particle_count = 2048, num_bins = 64, max_speed = 8\<rparr>"

text \<open>WGSL \<^verbatim>\<open>clamp(e, low, high)\<close> is \<open>min(max(e, low), high)\<close>.\<close>

definition clamp :: "real \<Rightarrow> real \<Rightarrow> real \<Rightarrow> real" where
  "clamp e low high = min (max e low) high"

text \<open>
  The conversion \<^verbatim>\<open>u32(x)\<close> of a float: the value is brought into the range of
  \<^verbatim>\<open>u32\<close> and truncated towards zero.
\<close>

definition u32 :: "real \<Rightarrow> nat" where
  "u32 x = (if x \<le> 0 then 0 else if 4294967295 \<le> x then 4294967295 else nat \<lfloor>x\<rfloor>)"

definition histogram_bin :: "HistUniforms \<Rightarrow> real \<Rightarrow> nat" where
  "histogram_bin u spd =
     (let normalized = clamp (spd / max_speed u) 0 (9999 / 10000)
      in u32 (normalized * real (num_bins u)))"

section \<open>The GPU renderer: density splat shader\<close>

record DensityUniforms =
  grid_min :: vec3
  grid_max :: vec3
  grid_res :: nat
  dens_particle_count :: nat
  splat_radius :: real
  splat_strength :: real

definition density_uniforms :: DensityUniforms where
  "density_uniforms =
     \<lparr>grid_min = (- 35 / 10, - 35 / 10, - 35 / 10), grid_max = (35 / 10, 35 / 10, 35 / 10),
      grid_res = 64, dens_particle_count = 2048, splat_radius = 2, splat_strength = 15 / 10\<rparr>"

fun vdiv :: "vec3 \<Rightarrow> vec3 \<Rightarrow> vec3" where
  "vdiv (a, b, c) (x, y, z) = (a / x, b / y, c / z)"

definition worldToGrid :: "DensityUniforms \<Rightarrow> vec3 \<Rightarrow> vec3" where
  "worldToGrid u pos =
     (let normalized = vdiv (vsub pos (grid_min u)) (vsub (grid_max u) (grid_min u))
      in vscale (real (grid_res u)) normalized)"

text \<open>\<^verbatim>\<open>gridIndex\<close> computes in \<^verbatim>\<open>u32\<close>, so it wraps at \<open>2^32\<close>.\<close>

definition gridIndex :: "DensityUniforms \<Rightarrow> nat \<Rightarrow> nat \<Rightarrow> nat \<Rightarrow> nat" where
  "gridIndex u ix iy iz =
     (ix + iy * grid_res u + iz * grid_res u * grid_res u) mod 2 ^ 32"

text \<open>
  The density buffer maps an index to a \<^verbatim>\<open>u32\<close> counter; \<^verbatim>\<open>atomicAdd\<close> wraps.
  \<open>splat_cell\<close> is the body of the innermost loop for the offset \<open>(dx, dy, dz)\<close>.
\<close>

type_synonym density = "nat \<Rightarrow> 32 word"

definition cell_contribution :: "DensityUniforms \<Rightarrow> Particle \<Rightarrow> int \<times> int \<times> int \<Rightarrow> nat" where
  "cell_contribution u p cell =
     (case cell of (cx, cy, cz) \<Rightarrow>
      let gridPos = worldToGrid u (position p);
          speed_factor = 1 + speed p * (3 / 10);
          cellCenter = (real_of_int cx + 1 / 2, real_of_int cy + 1 / 2, real_of_int cz + 1 / 2);
          dist = vlength (vsub gridPos cellCenter);
          sigma = splat_radius u * (1 / 2);
          weight = exp (- dist * dist / (2 * sigma * sigma))
      in u32 (weight * splat_strength u * speed_factor * 1000))"

definition splat_center :: "DensityUniforms \<Rightarrow> Particle \<Rightarrow> int \<times> int \<times> int" where
  "splat_center u p =
     (case worldToGrid u (position p) of (gx, gy, gz) \<Rightarrow> (\<lfloor>gx\<rfloor>, \<lfloor>gy\<rfloor>, \<lfloor>gz\<rfloor>))"

definition splat_cell :: "DensityUniforms \<Rightarrow> Particle \<Rightarrow> int \<Rightarrow> int \<Rightarrow> int \<Rightarrow> density \<Rightarrow> density" where
  "splat_cell u p dz dy dx d =
     (case splat_center u p of (cx, cy, cz) \<Rightarrow>
      let x = cx + dx; y = cy + dy; z = cz + dz; res = int (grid_res u) in
      if x < 0 \<or> x \<ge> res \<or> y < 0 \<or> y \<ge> res \<or> z < 0 \<or> z \<ge> res then d
      else
        let contribution = cell_contribution u p (x, y, z) in
        if contribution > 0 then
          let gi = gridIndex u (nat x) (nat y) (nat z)
          in d(gi := d gi + of_nat contribution)
        else d)"

definition splat_main :: "DensityUniforms \<Rightarrow> Particle \<Rightarrow> density \<Rightarrow> density" where
  "splat_main u p d =
     (let r = \<lceil>splat_radius u\<rceil> in
      fold (\<lambda>dz. fold (\<lambda>dy. fold (\<lambda>dx. splat_cell u p dz dy dx) [- r..r]) [- r..r]) [- r..r] d)"

section \<open>The entropy calculator\<close>

record EntropyCalculator =
  numBins :: nat
  maxEntropy :: real
  currentEntropy :: real
  normalizedEntropy :: real
  displayEntropy :: real
  smoothing :: real

definition new_EntropyCalculator :: "nat \<Rightarrow> EntropyCalculator" where
  "new_EntropyCalculator n =
     \<lparr>numBins = n, maxEntropy = log 2 (real n), currentEntropy = 0,
      normalizedEntropy = 0, displayEntropy = 0, smoothing = 12 / 100\<rparr>"

record EntropyResult =
  entropy :: real
  normalized :: real

text \<open>
  \<^verbatim>\<open>compute\<close> returns its result and the calculator with the updated fields. The
  division by \<^verbatim>\<open>maxEntropy\<close> gives Infinity or NaN when that is zero (one bin); this
  is \<open>None\<close>.
\<close>

definition compute :: "32 word list \<Rightarrow> EntropyCalculator \<Rightarrow> (EntropyResult \<times> EntropyCalculator) option" where
  "compute histogram c =
     (let total = fold (\<lambda>h t. t + real (unat h)) histogram 0 in
      if total = 0 then
        Some (\<lparr>entropy = 0, normalized = 0\<rparr>, c\<lparr>currentEntropy := 0, normalizedEntropy := 0\<rparr>)
      else
        let H = fold (\<lambda>h H. if unat h > 0
                              then let p = real (unat h) / total in H - p * log 2 p
                              else H) histogram 0
        in if maxEntropy c = 0 then None
           else Some (\<lparr>entropy = H, normalized = H / maxEntropy c\<rparr>,
                      c\<lparr>currentEntropy := H, normalizedEntropy := H / maxEntropy c\<rparr>))"

definition updateDisplay :: "EntropyCalculator \<Rightarrow> EntropyCalculator" where
  "updateDisplay c =
     c\<lparr>displayEntropy := displayEntropy c + (normalizedEntropy c - displayEntropy c) * smoothing c\<rparr>"

section \<open>Notions used in the proofs\<close>

text \<open>
  The lattice as a list of keys: \<open>cells n\<close> are the cells \<open>(z, y, x)\<close> of the first
  \<open>n\<close> layers in loop order, and \<open>atom c b\<close> is the corner atom (\<open>b\<close> false) or the
  body-centre atom (\<open>b\<close> true) of the cell \<open>c\<close>.
\<close>

definition atom :: "nat \<times> nat \<times> nat \<Rightarrow> bool \<Rightarrow> vec3" where
  "atom c b = (case c of (z, y, x) \<Rightarrow> lattice_point (if b then 1 else 1 / 2) x y z)"

definition cells :: "nat \<Rightarrow> (nat \<times> nat \<times> nat) list" where
  "cells n = List.product [0..<n] (List.product [0..<side] [0..<side])"

text \<open>
  The integration step in vector form. \<open>kick\<close> is the velocity after damping and
  forces, \<open>clamp_speed\<close> the clamp to 8, \<open>moved\<close> the integrated position,
  \<open>boundary_push\<close> the inward push \<open>2 (|x| - 4.5) x / |x|\<close> outside the radius 4.5,
  and \<open>corrected\<close> the velocity after the soft boundary. Both backends compute these
  (lemmas \<open>fallback_step_fields\<close> and \<open>physics_main_fields\<close>).
\<close>

fun vdot :: "vec3 \<Rightarrow> vec3 \<Rightarrow> real" where
  "vdot (a, b, c) (x, y, z) = a * x + b * y + c * z"

definition clamp_speed :: "vec3 \<Rightarrow> vec3" where
  "clamp_speed v = (if vlength v > 8 then vscale (8 / vlength v) v else v)"

definition boundary_push :: "vec3 \<Rightarrow> vec3" where
  "boundary_push x =
     (if vlength x > 9 / 2 then vscale (2 * (vlength x - 9 / 2) / vlength x) x else (0, 0, 0))"

definition kick :: "real \<Rightarrow> real \<Rightarrow> vec3 \<Rightarrow> Particle \<Rightarrow> vec3" where
  "kick dt t r p =
     vadd (vscale (999 / 1000 + (97 / 100 - 999 / 1000) * t) (velocity p))
          (vscale dt (vadd (vscale (12 * t) (vsub (home_position p) (position p)))
                           (vscale (4 * (1 - t)) r)))"

definition moved :: "real \<Rightarrow> real \<Rightarrow> vec3 \<Rightarrow> Particle \<Rightarrow> vec3" where
  "moved dt t r p = vadd (position p) (vscale dt (clamp_speed (kick dt t r p)))"

definition corrected :: "real \<Rightarrow> real \<Rightarrow> vec3 \<Rightarrow> Particle \<Rightarrow> vec3" where
  "corrected dt t r p =
     vsub (clamp_speed (kick dt t r p)) (vscale dt (boundary_push (moved dt t r p)))"


text \<open>
  For the density splat: a stationary particle at the centre of the grid cell
  \<open>(32, 32, 32)\<close>; and the innermost loop body read as a guarded point update, with its
  guard \<open>splat_ok\<close>, its index \<open>splat_idx\<close> and its increment \<open>splat_val\<close>, over the
  list \<open>offsets r\<close> of all \<open>(dz, dy, dx)\<close> in loop order.
\<close>

definition centred_particle :: Particle where
  "centred_particle =
     \<lparr>position = (7 / 128, 7 / 128, 7 / 128), velocity = (0, 0, 0),
      home_position = (7 / 128, 7 / 128, 7 / 128), speed = 0\<rparr>"

definition splat_ok :: "DensityUniforms \<Rightarrow> Particle \<Rightarrow> int \<times> int \<times> int \<Rightarrow> bool" where
  "splat_ok u p off =
     (case off of (dz, dy, dx) \<Rightarrow> case splat_center u p of (cx, cy, cz) \<Rightarrow>
        0 \<le> cx + dx \<and> cx + dx < int (grid_res u) \<and> 0 \<le> cy + dy \<and> cy + dy < int (grid_res u)
        \<and> 0 \<le> cz + dz \<and> cz + dz < int (grid_res u)
        \<and> 0 < cell_contribution u p (cx + dx, cy + dy, cz + dz))"

definition splat_idx :: "DensityUniforms \<Rightarrow> Particle \<Rightarrow> int \<times> int \<times> int \<Rightarrow> nat" where
  "splat_idx u p off =
     (case off of (dz, dy, dx) \<Rightarrow> case splat_center u p of (cx, cy, cz) \<Rightarrow>
        gridIndex u (nat (cx + dx)) (nat (cy + dy)) (nat (cz + dz)))"

definition splat_val :: "DensityUniforms \<Rightarrow> Particle \<Rightarrow> int \<times> int \<times> int \<Rightarrow> 32 word" where
  "splat_val u p off =
     (case off of (dz, dy, dx) \<Rightarrow> case splat_center u p of (cx, cy, cz) \<Rightarrow>
        of_nat (cell_contribution u p (cx + dx, cy + dy, cz + dz)))"

definition offsets :: "int \<Rightarrow> (int \<times> int \<times> int) list" where
  "offsets r = List.product [- r..r] (List.product [- r..r] [- r..r])"

text \<open>
  For the relaxation at \<open>t_order = 1\<close> and \<open>dt = 0.016\<close>: \<open>carried p\<close> is the
  velocity of \<open>p\<close> with the last boundary correction undone, that is the clamped
  velocity of the step that produced \<open>p\<close>; \<open>overshoot x\<close> is the squared distance of
  \<open>x\<close> from the ball of radius 4.5; \<open>potential h x\<close> is the potential whose gradient
  \<open>pull h x\<close> drives the next step, and \<open>energy\<close> adds the kinetic part.
  \<open>follows p p'\<close> says that \<open>p'\<close> has the position, velocity and home that one step
  without noise gives from \<open>p\<close>. \<open>shader_steps n rn p\<close> is the physics shader applied
  \<open>n\<close> times to one particle.
\<close>

definition carried :: "Particle \<Rightarrow> vec3" where
  "carried p = vadd (velocity p) (vscale (2 / 125) (boundary_push (position p)))"

definition overshoot :: "vec3 \<Rightarrow> real" where
  "overshoot x = (max 0 (vlength x - 9 / 2))\<^sup>2"

definition potential :: "vec3 \<Rightarrow> vec3 \<Rightarrow> real" where
  "potential h x = 97 / 100 * overshoot x + 6 * vdot (vsub x h) (vsub x h)"

definition pull :: "vec3 \<Rightarrow> vec3 \<Rightarrow> vec3" where
  "pull h x = vadd (vscale (97 / 100) (boundary_push x)) (vscale 12 (vsub x h))"

definition energy :: "Particle \<Rightarrow> real" where
  "energy p = potential (home_position p) (position p) + vdot (carried p) (carried p) / 2"

definition follows :: "Particle \<Rightarrow> Particle \<Rightarrow> bool" where
  "follows p p' \<longleftrightarrow>
     position p' = moved (2 / 125) 1 (0, 0, 0) p
     \<and> velocity p' = corrected (2 / 125) 1 (0, 0, 0) p
     \<and> home_position p' = home_position p"

fun shader_steps :: "nat \<Rightarrow> (nat \<Rightarrow> vec3) \<Rightarrow> Particle \<Rightarrow> Particle" where
  "shader_steps 0 rn p = p"
| "shader_steps (Suc n) rn p =
     physics_main (physics_uniforms (2 / 125) 1) (rn n) (shader_steps n rn p)"

section \<open>Clicks during a transition\<close>

text \<open>
  C8. For every state machine whose current state is SHATTERING or REASSEMBLING,
  \<^verbatim>\<open>click()\<close> leaves every field unchanged: the whole record, that is state,
  \<open>tOrder\<close>, \<open>transitionProgress\<close>, \<open>transitionDuration\<close> and \<open>elapsed\<close>, is the same
  afterwards. A click during a transition is dropped, not queued.
\<close>

theorem click_in_transition_is_noop:
  "state m = SHATTERING \<or> state m = REASSEMBLING \<Longrightarrow> click m = m"
  by (auto simp: click_def)

theorem click_in_transition_is_noop_witness:
  "state (click new_StateMachine) = SHATTERING
   \<and> click (click new_StateMachine) = click new_StateMachine"
  using click_in_transition_is_noop [of "click new_StateMachine"]
  by (simp add: click_def new_StateMachine_def)

section \<open>Rounding to the nearest double\<close>

text \<open>
  \<open>fl\<close> is evaluated through its specification: a positive \<open>q\<close> that \<open>k\<close>
  doublings bring into \<open>[2^52, 2^53)\<close> is rounded at that scale.
\<close>

lemma binade_up:
  "0 < q \<Longrightarrow> 2 ^ 52 \<le> q * 2 ^ k \<Longrightarrow> q * 2 ^ k < 2 ^ 53 \<Longrightarrow> k \<le> n
   \<Longrightarrow> - 1074 \<le> e - int k \<Longrightarrow> binade n q e = (q * 2 ^ k, e - int k)"
proof (induction k arbitrary: n q e)
  case 0
  then show ?case by (cases n) auto
next
  case (Suc k)
  then obtain n' where n: "n = Suc n'" by (cases n) auto
  have "(2::rat) ^ k \<ge> 1" by simp
  then have "q * 2 \<le> q * 2 * 2 ^ k" using Suc.prems(1)
    by (metis mult.right_neutral mult_le_cancel_left_pos mult_pos_pos zero_less_numeral)
  with Suc.prems(3) have lt: "q < 2 ^ 52" by simp
  have "binade n' (q * 2) (e - 1) = (q * 2 * 2 ^ k, e - 1 - int k)"
    using Suc.prems n by (intro Suc.IH) (auto simp: algebra_simps)
  with lt Suc.prems n show ?case by (auto simp: algebra_simps)
qed

lemma fl_scaled:
  assumes "0 < q" "2 ^ 52 \<le> q * 2 ^ k" "q * 2 ^ k < 2 ^ 53" "k \<le> 1074"
  shows "fl q = of_int (rne (q * 2 ^ k)) / 2 ^ k"
proof -
  have "binade 2200 q 0 = (q * 2 ^ k, 0 - int k)"
    using assms by (intro binade_up) auto
  then show ?thesis using assms(1)
    by (cases "k = 0") (auto simp: fl_def pow2_def)
qed


lemma rne_frac:
  assumes "0 < b"
  shows "rne (of_int a / of_int b) =
     (let f = a div b; r = a mod b in
      if 2 * r < b then f else if b < 2 * r then f + 1 else if even f then f else f + 1)"
proof -
  have fl: "\<lfloor>(of_int a / of_int b :: rat)\<rfloor> = a div b"
    by (rule floor_divide_of_int_eq)
  have "(of_int a :: rat) = of_int (a div b) * of_int b + of_int (a mod b)"
    by (metis of_int_add of_int_mult div_mult_mod_eq)
  then have fr: "(of_int a / of_int b :: rat) - of_int (a div b) = of_int (a mod b) / of_int b"
    using assms by (simp add: field_simps)
  have "(of_int (a mod b) / of_int b < (1 / 2 :: rat)) = ((of_int (2 * (a mod b)) :: rat) < of_int b)"
    using assms by (simp add: field_simps)
  then have c1: "(of_int (a mod b) / of_int b < (1 / 2 :: rat)) = (2 * (a mod b) < b)"
    by (simp only: of_int_less_iff)
  have "((1 / 2 :: rat) < of_int (a mod b) / of_int b) = ((of_int b :: rat) < of_int (2 * (a mod b)))"
    using assms by (simp add: field_simps)
  then have c2: "((1 / 2 :: rat) < of_int (a mod b) / of_int b) = (b < 2 * (a mod b))"
    by (simp only: of_int_less_iff)
  show ?thesis
    unfolding rne_def Let_def fl fr c1 c2 by simp
qed

lemma rne_numeral_frac:
  "rne (numeral a / numeral b) =
     (let f = numeral a div numeral b; r = numeral a mod numeral b :: int in
      if 2 * r < numeral b then f else if numeral b < 2 * r then f + 1
      else if even f then f else f + 1)"
  using rne_frac [of "numeral b" "numeral a"] by simp

lemma rne_numeral: "rne (numeral a) = numeral a"
  using rne_frac [of 1 "numeral a"] by simp

section \<open>Shattering with a fixed time step of 0.1\<close>

text \<open>
  The literal \<^verbatim>\<open>0.1\<close> is the double nearest to one tenth. The fifteen sums
  \<^verbatim>\<open>elapsed += dt\<close> and the fifteen quotients \<^verbatim>\<open>elapsed / 1.5\<close>, each
  rounded:
\<close>

lemma fl_tenth: "fl (1 / 10) = 3602879701896397 / 36028797018963968"
  by (simp add: fl_scaled [where k = 56] rne_numeral_frac rne_numeral)

lemma fl_exact: "fl (3 / 2) = 3 / 2" "fl 2 = 2"
  by (simp_all add: fl_scaled [where k = 52] fl_scaled [where k = 51] rne_numeral_frac rne_numeral)

lemma elapsed_values:
  "js_add (0) (3602879701896397 / 36028797018963968) = 3602879701896397 / 36028797018963968"
  "js_add (3602879701896397 / 36028797018963968) (3602879701896397 / 36028797018963968) = 3602879701896397 / 18014398509481984"
  "js_add (3602879701896397 / 18014398509481984) (3602879701896397 / 36028797018963968) = 1351079888211149 / 4503599627370496"
  "js_add (1351079888211149 / 4503599627370496) (3602879701896397 / 36028797018963968) = 3602879701896397 / 9007199254740992"
  "js_add (3602879701896397 / 9007199254740992) (3602879701896397 / 36028797018963968) = 1 / 2"
  "js_add (1 / 2) (3602879701896397 / 36028797018963968) = 5404319552844595 / 9007199254740992"
  "js_add (5404319552844595 / 9007199254740992) (3602879701896397 / 36028797018963968) = 3152519739159347 / 4503599627370496"
  "js_add (3152519739159347 / 4503599627370496) (3602879701896397 / 36028797018963968) = 7205759403792793 / 9007199254740992"
  "js_add (7205759403792793 / 9007199254740992) (3602879701896397 / 36028797018963968) = 2026619832316723 / 2251799813685248"
  "js_add (2026619832316723 / 2251799813685248) (3602879701896397 / 36028797018963968) = 9007199254740991 / 9007199254740992"
  "js_add (9007199254740991 / 9007199254740992) (3602879701896397 / 36028797018963968) = 4953959590107545 / 4503599627370496"
  "js_add (4953959590107545 / 4503599627370496) (3602879701896397 / 36028797018963968) = 5404319552844595 / 4503599627370496"
  "js_add (5404319552844595 / 4503599627370496) (3602879701896397 / 36028797018963968) = 5854679515581645 / 4503599627370496"
  "js_add (5854679515581645 / 4503599627370496) (3602879701896397 / 36028797018963968) = 6305039478318695 / 4503599627370496"
  "js_add (6305039478318695 / 4503599627370496) (3602879701896397 / 36028797018963968) = 6755399441055745 / 4503599627370496"
  by (simp_all add: js_add_def fl_scaled [where k = 52] fl_scaled [where k = 53] fl_scaled [where k = 54] fl_scaled [where k = 55] fl_scaled [where k = 56] rne_numeral_frac rne_numeral)

lemma progress_values:
  "js_div (3602879701896397 / 36028797018963968) (3 / 2) = Some (4803839602528529 / 72057594037927936)"
  "js_div (3602879701896397 / 18014398509481984) (3 / 2) = Some (4803839602528529 / 36028797018963968)"
  "js_div (1351079888211149 / 4503599627370496) (3 / 2) = Some (7205759403792795 / 36028797018963968)"
  "js_div (3602879701896397 / 9007199254740992) (3 / 2) = Some (4803839602528529 / 18014398509481984)"
  "js_div (1 / 2) (3 / 2) = Some (6004799503160661 / 18014398509481984)"
  "js_div (5404319552844595 / 9007199254740992) (3 / 2) = Some (7205759403792793 / 18014398509481984)"
  "js_div (3152519739159347 / 4503599627370496) (3 / 2) = Some (8406719304424925 / 18014398509481984)"
  "js_div (7205759403792793 / 9007199254740992) (3 / 2) = Some (4803839602528529 / 9007199254740992)"
  "js_div (2026619832316723 / 2251799813685248) (3 / 2) = Some (5404319552844595 / 9007199254740992)"
  "js_div (9007199254740991 / 9007199254740992) (3 / 2) = Some (6004799503160661 / 9007199254740992)"
  "js_div (4953959590107545 / 4503599627370496) (3 / 2) = Some (6605279453476727 / 9007199254740992)"
  "js_div (5404319552844595 / 4503599627370496) (3 / 2) = Some (7205759403792793 / 9007199254740992)"
  "js_div (5854679515581645 / 4503599627370496) (3 / 2) = Some (1951559838527215 / 2251799813685248)"
  "js_div (6305039478318695 / 4503599627370496) (3 / 2) = Some (8406719304424927 / 9007199254740992)"
  "js_div (6755399441055745 / 4503599627370496) (3 / 2) = Some (4503599627370497 / 4503599627370496)"
  by (simp_all add: js_div_def fl_scaled [where k = 52] fl_scaled [where k = 53] fl_scaled [where k = 54] fl_scaled [where k = 55] fl_scaled [where k = 56] rne_numeral_frac rne_numeral)

lemma shattering_steps:
  "update (3602879701896397 / 36028797018963968)
     \<lparr>state = SHATTERING, tOrder = t, transitionProgress = p,
       transitionDuration = 3 / 2, elapsed = 0\<rparr> =
   Some \<lparr>state = SHATTERING, tOrder = js_sub 1 (easeOutCubic (4803839602528529 / 72057594037927936)), transitionProgress = 4803839602528529 / 72057594037927936,
       transitionDuration = 3 / 2, elapsed = 3602879701896397 / 36028797018963968\<rparr>"
  "update (3602879701896397 / 36028797018963968)
     \<lparr>state = SHATTERING, tOrder = t, transitionProgress = p,
       transitionDuration = 3 / 2, elapsed = 3602879701896397 / 36028797018963968\<rparr> =
   Some \<lparr>state = SHATTERING, tOrder = js_sub 1 (easeOutCubic (4803839602528529 / 36028797018963968)), transitionProgress = 4803839602528529 / 36028797018963968,
       transitionDuration = 3 / 2, elapsed = 3602879701896397 / 18014398509481984\<rparr>"
  "update (3602879701896397 / 36028797018963968)
     \<lparr>state = SHATTERING, tOrder = t, transitionProgress = p,
       transitionDuration = 3 / 2, elapsed = 3602879701896397 / 18014398509481984\<rparr> =
   Some \<lparr>state = SHATTERING, tOrder = js_sub 1 (easeOutCubic (7205759403792795 / 36028797018963968)), transitionProgress = 7205759403792795 / 36028797018963968,
       transitionDuration = 3 / 2, elapsed = 1351079888211149 / 4503599627370496\<rparr>"
  "update (3602879701896397 / 36028797018963968)
     \<lparr>state = SHATTERING, tOrder = t, transitionProgress = p,
       transitionDuration = 3 / 2, elapsed = 1351079888211149 / 4503599627370496\<rparr> =
   Some \<lparr>state = SHATTERING, tOrder = js_sub 1 (easeOutCubic (4803839602528529 / 18014398509481984)), transitionProgress = 4803839602528529 / 18014398509481984,
       transitionDuration = 3 / 2, elapsed = 3602879701896397 / 9007199254740992\<rparr>"
  "update (3602879701896397 / 36028797018963968)
     \<lparr>state = SHATTERING, tOrder = t, transitionProgress = p,
       transitionDuration = 3 / 2, elapsed = 3602879701896397 / 9007199254740992\<rparr> =
   Some \<lparr>state = SHATTERING, tOrder = js_sub 1 (easeOutCubic (6004799503160661 / 18014398509481984)), transitionProgress = 6004799503160661 / 18014398509481984,
       transitionDuration = 3 / 2, elapsed = 1 / 2\<rparr>"
  "update (3602879701896397 / 36028797018963968)
     \<lparr>state = SHATTERING, tOrder = t, transitionProgress = p,
       transitionDuration = 3 / 2, elapsed = 1 / 2\<rparr> =
   Some \<lparr>state = SHATTERING, tOrder = js_sub 1 (easeOutCubic (7205759403792793 / 18014398509481984)), transitionProgress = 7205759403792793 / 18014398509481984,
       transitionDuration = 3 / 2, elapsed = 5404319552844595 / 9007199254740992\<rparr>"
  "update (3602879701896397 / 36028797018963968)
     \<lparr>state = SHATTERING, tOrder = t, transitionProgress = p,
       transitionDuration = 3 / 2, elapsed = 5404319552844595 / 9007199254740992\<rparr> =
   Some \<lparr>state = SHATTERING, tOrder = js_sub 1 (easeOutCubic (8406719304424925 / 18014398509481984)), transitionProgress = 8406719304424925 / 18014398509481984,
       transitionDuration = 3 / 2, elapsed = 3152519739159347 / 4503599627370496\<rparr>"
  "update (3602879701896397 / 36028797018963968)
     \<lparr>state = SHATTERING, tOrder = t, transitionProgress = p,
       transitionDuration = 3 / 2, elapsed = 3152519739159347 / 4503599627370496\<rparr> =
   Some \<lparr>state = SHATTERING, tOrder = js_sub 1 (easeOutCubic (4803839602528529 / 9007199254740992)), transitionProgress = 4803839602528529 / 9007199254740992,
       transitionDuration = 3 / 2, elapsed = 7205759403792793 / 9007199254740992\<rparr>"
  "update (3602879701896397 / 36028797018963968)
     \<lparr>state = SHATTERING, tOrder = t, transitionProgress = p,
       transitionDuration = 3 / 2, elapsed = 7205759403792793 / 9007199254740992\<rparr> =
   Some \<lparr>state = SHATTERING, tOrder = js_sub 1 (easeOutCubic (5404319552844595 / 9007199254740992)), transitionProgress = 5404319552844595 / 9007199254740992,
       transitionDuration = 3 / 2, elapsed = 2026619832316723 / 2251799813685248\<rparr>"
  "update (3602879701896397 / 36028797018963968)
     \<lparr>state = SHATTERING, tOrder = t, transitionProgress = p,
       transitionDuration = 3 / 2, elapsed = 2026619832316723 / 2251799813685248\<rparr> =
   Some \<lparr>state = SHATTERING, tOrder = js_sub 1 (easeOutCubic (6004799503160661 / 9007199254740992)), transitionProgress = 6004799503160661 / 9007199254740992,
       transitionDuration = 3 / 2, elapsed = 9007199254740991 / 9007199254740992\<rparr>"
  "update (3602879701896397 / 36028797018963968)
     \<lparr>state = SHATTERING, tOrder = t, transitionProgress = p,
       transitionDuration = 3 / 2, elapsed = 9007199254740991 / 9007199254740992\<rparr> =
   Some \<lparr>state = SHATTERING, tOrder = js_sub 1 (easeOutCubic (6605279453476727 / 9007199254740992)), transitionProgress = 6605279453476727 / 9007199254740992,
       transitionDuration = 3 / 2, elapsed = 4953959590107545 / 4503599627370496\<rparr>"
  "update (3602879701896397 / 36028797018963968)
     \<lparr>state = SHATTERING, tOrder = t, transitionProgress = p,
       transitionDuration = 3 / 2, elapsed = 4953959590107545 / 4503599627370496\<rparr> =
   Some \<lparr>state = SHATTERING, tOrder = js_sub 1 (easeOutCubic (7205759403792793 / 9007199254740992)), transitionProgress = 7205759403792793 / 9007199254740992,
       transitionDuration = 3 / 2, elapsed = 5404319552844595 / 4503599627370496\<rparr>"
  "update (3602879701896397 / 36028797018963968)
     \<lparr>state = SHATTERING, tOrder = t, transitionProgress = p,
       transitionDuration = 3 / 2, elapsed = 5404319552844595 / 4503599627370496\<rparr> =
   Some \<lparr>state = SHATTERING, tOrder = js_sub 1 (easeOutCubic (1951559838527215 / 2251799813685248)), transitionProgress = 1951559838527215 / 2251799813685248,
       transitionDuration = 3 / 2, elapsed = 5854679515581645 / 4503599627370496\<rparr>"
  "update (3602879701896397 / 36028797018963968)
     \<lparr>state = SHATTERING, tOrder = t, transitionProgress = p,
       transitionDuration = 3 / 2, elapsed = 5854679515581645 / 4503599627370496\<rparr> =
   Some \<lparr>state = SHATTERING, tOrder = js_sub 1 (easeOutCubic (8406719304424927 / 9007199254740992)), transitionProgress = 8406719304424927 / 9007199254740992,
       transitionDuration = 3 / 2, elapsed = 6305039478318695 / 4503599627370496\<rparr>"
  by (simp_all add: update_def Let_def elapsed_values progress_values)

lemma shattering_last_step:
  "update (3602879701896397 / 36028797018963968)
     \<lparr>state = SHATTERING, tOrder = t, transitionProgress = p,
       transitionDuration = 3 / 2, elapsed = 6305039478318695 / 4503599627370496\<rparr> =
   Some \<lparr>state = CHAOS, tOrder = 0, transitionProgress = 1,
       transitionDuration = 3 / 2, elapsed = 6755399441055745 / 4503599627370496\<rparr>"
  by (simp add: update_def Let_def elapsed_values progress_values)

text \<open>
  C5. Starting in ORDERED, \<^verbatim>\<open>click()\<close> and then fifteen calls of
  \<^verbatim>\<open>update(0.1)\<close> in binary64 arithmetic leave the machine in state CHAOS with
  \<open>tOrder\<close> exactly 0. The transition fires in the fifteenth call, where the accumulated
  \<open>elapsed\<close> is 1.5000000000000002, the first value that is at least 1.5: after fourteen
  calls the machine is still SHATTERING with \<open>elapsed\<close> 1.4000000000000001.
\<close>

theorem shatter_fifteen_updates_reach_chaos:
  "updates 15 (fl (1 / 10)) (click new_StateMachine) =
     Some \<lparr>state = CHAOS, tOrder = 0, transitionProgress = 1,
       transitionDuration = 3 / 2, elapsed = 6755399441055745 / 4503599627370496\<rparr>
   \<and> updates 14 (fl (1 / 10)) (click new_StateMachine) =
     Some \<lparr>state = SHATTERING, tOrder = js_sub 1 (easeOutCubic (8406719304424927 / 9007199254740992)), transitionProgress = 8406719304424927 / 9007199254740992,
       transitionDuration = 3 / 2, elapsed = 6305039478318695 / 4503599627370496\<rparr>"
  by (simp add: eval_nat_numeral click_def new_StateMachine_def fl_tenth fl_exact
      shattering_steps shattering_last_step)

section \<open>The two binning rules\<close>

text \<open>
  C6. For every non-negative speed \<open>s\<close>, the bin the histogram shader selects,
  \<^verbatim>\<open>u32(clamp(s / 8.0, 0.0, 0.9999) * 64)\<close>, is the bin the fallback selects,
  \<^verbatim>\<open>min(floor((s / 8.0) * 64), 63)\<close>: the two backends bin speeds alike.
\<close>

theorem gpu_and_fallback_bins_agree:
  "0 \<le> s \<Longrightarrow> int (histogram_bin hist_uniforms s) = fallback_bin s"
proof -
  assume s: "0 \<le> s"
  have fb: "fallback_bin s = min \<lfloor>8 * s\<rfloor> 63"
    by (simp add: fallback_bin_def HIST_BINS_def)
  have gb: "histogram_bin hist_uniforms s = u32 (min (s / 8) (9999 / 10000) * 64)"
    using s by (simp add: histogram_bin_def hist_uniforms_def clamp_def max_def)
  show ?thesis
  proof (cases "s / 8 \<le> 9999 / 10000")
    case True
    then have lt: "8 * s < 64" by simp
    then have "\<lfloor>8 * s\<rfloor> < 64" by (simp add: floor_less_iff)
    then have m: "min \<lfloor>8 * s\<rfloor> 63 = \<lfloor>8 * s\<rfloor>" by simp
    have "min (s / 8) (9999 / 10000) * 64 = 8 * s" using True by (simp add: min_def)
    then have "histogram_bin hist_uniforms s = u32 (8 * s)" using gb by simp
    also have "int \<dots> = \<lfloor>8 * s\<rfloor>"
      using s lt by (auto simp: u32_def)
    finally show ?thesis using fb m by simp
  next
    case False
    then have "63 \<le> 8 * s" by simp
    then have "63 \<le> \<lfloor>8 * s\<rfloor>" by (simp add: le_floor_iff)
    then have m: "min \<lfloor>8 * s\<rfloor> 63 = 63" by simp
    have "min (s / 8) (9999 / 10000) * 64 = 39996 / 625" using False by (simp add: min_def)
    then have "histogram_bin hist_uniforms s = u32 (39996 / 625)" using gb by simp
    also have "\<dots> = 63"
    proof -
      have "\<lfloor>(39996 / 625 :: real)\<rfloor> = 63" by (simp add: floor_eq_iff)
      then show ?thesis by (simp add: u32_def)
    qed
    finally show ?thesis using fb m by simp
  qed
qed

theorem gpu_and_fallback_bins_agree_witness:
  "(0::real) \<le> 8 \<and> int (histogram_bin hist_uniforms 8) = fallback_bin 8"
  using gpu_and_fallback_bins_agree [of 8] by simp

section \<open>Entropy of an empty histogram\<close>

lemma fold_total_zero:
  "\<forall>h\<in>set hs. h = 0 \<Longrightarrow> fold (\<lambda>h t. t + real (unat h)) hs t0 = t0" for hs :: "32 word list"
  by (induction hs arbitrary: t0) auto

text \<open>
  C7. \<^verbatim>\<open>compute\<close> on a histogram whose bins are all zero returns
  \<^verbatim>\<open>{ entropy: 0, normalized: 0 }\<close> and stores 0 in \<open>currentEntropy\<close> and
  \<open>normalizedEntropy\<close>; the division by the zero total is never reached.
\<close>

theorem compute_all_zero:
  "\<forall>h\<in>set histogram. h = 0 \<Longrightarrow>
   compute histogram c =
     Some (\<lparr>entropy = 0, normalized = 0\<rparr>, c\<lparr>currentEntropy := 0, normalizedEntropy := 0\<rparr>)"
proof -
  assume "\<forall>h\<in>set histogram. h = 0"
  then have t: "fold (\<lambda>h t. t + real (unat h)) histogram 0 = 0"
    by (rule fold_total_zero)
  show ?thesis unfolding compute_def Let_def t by simp
qed

theorem compute_all_zero_witness:
  "compute (replicate 64 0) (new_EntropyCalculator 64) =
     Some (\<lparr>entropy = 0, normalized = 0\<rparr>,
           (new_EntropyCalculator 64)\<lparr>currentEntropy := 0, normalizedEntropy := 0\<rparr>)"
  using compute_all_zero [of "replicate 64 0" "new_EntropyCalculator 64"] by simp

section \<open>The body-centred cubic lattice\<close>

lemma side_value: "side = 7"
  by code_simp

lemma spacing_value: "spacing = 5 / 7"
  by (simp add: spacing_def side_value)

lemma fold_product:
  "fold (\<lambda>a. fold (f a) bs) as s = fold (\<lambda>(a, b). f a b) (List.product as bs) s"
  by (induction as arbitrary: s) (simp_all add: fold_map comp_def)

lemma concat_map_product:
  "concat (map (\<lambda>a. map (f a) bs) as) = map (\<lambda>(a, b). f a b) (List.product as bs)"
  by (induction as) (simp_all add: comp_def)

lemma take_take_append: "take n (take n xs @ ys) = take n (xs @ ys)"
  by (cases "length xs \<le> n") (simp_all add: min_def)

lemma fold_take_append:
  assumes "\<And>a ps. length ps \<le> n \<Longrightarrow> f a ps = take n (ps @ g a)"
  shows "length ps \<le> n \<Longrightarrow> fold f as ps = take n (ps @ concat (map g as))"
proof (induction as arbitrary: ps)
  case Nil
  then show ?case by simp
next
  case (Cons a as)
  have "fold f (a # as) ps = fold f as (take n (ps @ g a))"
    using assms [OF Cons.prems] by simp
  also have "\<dots> = take n (take n (ps @ g a) @ concat (map g as))"
    by (rule Cons.IH) simp
  also have "\<dots> = take n (ps @ concat (map g (a # as)))"
    by (simp only: take_take_append concat.simps list.map append_assoc)
  finally show ?case .
qed

lemma init_cell_take:
  assumes "length ps \<le> PARTICLE_COUNT"
  shows "init_cell z y x ps
     = take PARTICLE_COUNT (ps @ map (\<lambda>b. new_particle (atom (z, y, x) b)) [False, True])"
proof (cases "Suc (length ps) < PARTICLE_COUNT")
  case True
  then show ?thesis by (simp add: init_cell_def place_def atom_def)
next
  case False
  show ?thesis
  proof (cases "length ps < PARTICLE_COUNT")
    case True
    with False have "PARTICLE_COUNT - length ps = Suc 0" by simp
    with True False show ?thesis by (simp add: init_cell_def place_def atom_def)
  next
    case False
    then show ?thesis using assms by (simp add: init_cell_def place_def atom_def)
  qed
qed

lemma initParticles_eq:
  "initParticles = take PARTICLE_COUNT
     (map (\<lambda>(c, b). new_particle (atom c b)) (List.product (cells side) [False, True]))"
proof -
  have inner: "fold (\<lambda>y. fold (\<lambda>x. init_cell z y x) [0..<side]) [0..<side]
      = fold (\<lambda>(y, x). init_cell z y x) (List.product [0..<side] [0..<side])" for z
    by (rule ext) (rule fold_product)
  have "initParticles = fold (\<lambda>(z, y, x). init_cell z y x) (cells side) []"
    unfolding initParticles_def cells_def inner
    by (rule fold_product [of "\<lambda>z (y, x). init_cell z y x"])
  also have "\<dots> = take PARTICLE_COUNT
      ([] @ concat (map (\<lambda>c. map (\<lambda>b. new_particle (atom c b)) [False, True]) (cells side)))"
    by (rule fold_take_append) (auto simp: init_cell_take)
  also have "\<dots> = take PARTICLE_COUNT
     (map (\<lambda>(c, b). new_particle (atom c b)) (List.product (cells side) [False, True]))"
    by (simp only: concat_map_product append_Nil)
  finally show ?thesis .
qed

lemma length_cells: "length (cells n) = n * 49"
  by (simp add: cells_def side_value)

lemma initParticles_length: "length initParticles = PARTICLE_COUNT"
  by (simp add: initParticles_eq length_cells side_value PARTICLE_COUNT_def)

lemma homes_eq:
  "map home_position initParticles
     = take PARTICLE_COUNT (map (\<lambda>(c, b). atom c b) (List.product (cells side) [False, True]))"
  by (simp add: initParticles_eq take_map new_particle_def comp_def case_prod_unfold)

lemma atom_inj:
  assumes "atom (z, y, x) b = atom (z', y', x') b'"
  shows "z = z' \<and> y = y' \<and> x = x' \<and> b = b'"
proof -
  have *: "(if b then 2 else 1) + 2 * int x = (if b' then 2 else 1) + 2 * int x'"
          "(if b then 2 else 1) + 2 * int y = (if b' then 2 else 1) + 2 * int y'"
          "(if b then 2 else 1) + 2 * int z = (if b' then 2 else 1) + 2 * int z'"
    using assms
    by (auto simp: atom_def lattice_point_def spacing_value side_value split: if_splits)
  then show ?thesis by (auto split: if_splits) presburger+
qed

lemma distinct_cells: "distinct (cells n)"
  by (simp add: cells_def distinct_product)

lemma homes_distinct: "distinct (map home_position initParticles)"
proof -
  have "distinct (map (\<lambda>(c, b). atom c b) (List.product (cells side) [False, True]))"
  proof (rule distinct_map [THEN iffD2], intro conjI inj_onI)
    show "distinct (List.product (cells side) [False, True])"
      by (simp add: distinct_product distinct_cells)
  next
    fix k k' assume "(case k of (c, b) \<Rightarrow> atom c b) = (case k' of (c, b) \<Rightarrow> atom c b)"
    moreover obtain z y x b z' y' x' b' where "k = ((z, y, x), b)" "k' = ((z', y', x'), b')"
      by (metis prod.exhaust)
    ultimately show "k = k'"
      using atom_inj [of z y x b z' y' x' b'] by simp
  qed
  then show ?thesis by (simp add: homes_eq distinct_take)
qed


text \<open>
  C4, as amended. For \<open>N = 512\<close> the fallback initialiser generates exactly 512
  particles, and their home positions are pairwise distinct. (The set of home positions is
  not symmetric about the origin; see the counterexample below.)
\<close>

theorem lattice_512_distinct:
  "length initParticles = 512 \<and> distinct (map home_position initParticles)"
  using initParticles_length homes_distinct by (simp add: PARTICLE_COUNT_def)


section \<open>The fallback histogram\<close>









section \<open>The lattice is not symmetric\<close>

text \<open>
  The array is full after 256 of the 343 cells, so only the layers \<open>z < 6\<close> are used
  and every home position has its third coordinate at most \<open>25 / 14\<close>. The first
  particle sits at \<open>(-15/7, -15/7, -15/7)\<close>.
\<close>

lemma product_append: "List.product (xs @ ys) zs = List.product xs zs @ List.product ys zs"
  by (induction xs) simp_all

lemma cells_Suc: "cells (Suc n) = cells n @ List.product [n] (List.product [0..<side] [0..<side])"
  by (simp add: cells_def product_append)

lemma homes_first_layers:
  "map home_position initParticles
     = take PARTICLE_COUNT (map (\<lambda>(c, b). atom c b) (List.product (cells 6) [False, True]))"
proof -
  have "cells side = cells 6 @ List.product [6] (List.product [0..<side] [0..<side])"
    using cells_Suc [of 6] by (simp add: side_value)
  then have "List.product (cells side) [False, True]
      = List.product (cells 6) [False, True]
        @ List.product (List.product [6] (List.product [0..<side] [0..<side])) [False, True]"
    by (simp only: product_append)
  moreover have "PARTICLE_COUNT \<le> length (List.product (cells 6) [False, True])"
    by (simp add: length_cells PARTICLE_COUNT_def)
  ultimately show ?thesis by (simp add: homes_eq)
qed

lemma home_z_bound:
  assumes "(a, b, c) \<in> set (map home_position initParticles)"
  shows "c \<le> 25 / 14"
proof -
  from assms have "(a, b, c) \<in> set (map (\<lambda>(c, b). atom c b) (List.product (cells 6) [False, True]))"
    unfolding homes_first_layers by (rule in_set_takeD)
  then obtain z y x f where "z < 6" and "(a, b, c) = atom (z, y, x) f"
    by (auto simp: cells_def)
  then have "c = (real z - 7 / 2 + (if f then 1 else 1 / 2)) * (5 / 7)" and "real z \<le> 5"
    by (auto simp: atom_def lattice_point_def side_value spacing_value)
  then show ?thesis by (auto split: if_splits)
qed

lemma first_home: "(- 15 / 7, - 15 / 7, - 15 / 7) \<in> set (map home_position initParticles)"
proof -
  let ?keys = "List.product (cells 6) [False, True]"
  have len: "length ?keys = 588" by (simp add: length_cells)
  have "cells 6 ! 0 = (0, 0, 0)"
    by (simp add: cells_def product_nth side_value)
  then have "?keys ! 0 = ((0, 0, 0), False)"
    by (simp add: product_nth length_cells)
  then have "map home_position initParticles ! 0 = atom (0, 0, 0) False"
    unfolding homes_first_layers using len by (simp add: PARTICLE_COUNT_def)
  moreover have "atom (0, 0, 0) False = (- 15 / 7, - 15 / 7, - 15 / 7)"
    by (simp add: atom_def lattice_point_def side_value spacing_value)
  moreover have "0 < length (map home_position initParticles)"
    by (simp add: initParticles_length PARTICLE_COUNT_def)
  ultimately show ?thesis by (metis nth_mem)
qed

text \<open>
  Counterexample to C4 as stated: the home positions are not symmetric about the origin,
  even within a tolerance of \<open>1 / 4\<close> per coordinate. The mirror image
  \<open>(15/7, 15/7, 15/7)\<close> of the first particle's home has no home position near it.
\<close>

theorem lattice_not_symmetric:
  "\<not> (length initParticles = 512 \<and> distinct (map home_position initParticles)
      \<and> symmetric_about_origin (1 / 4) (map home_position initParticles))"
proof
  assume "length initParticles = 512 \<and> distinct (map home_position initParticles)
      \<and> symmetric_about_origin (1 / 4) (map home_position initParticles)"
  then have "\<forall>p\<in>set (map home_position initParticles).
      \<exists>q\<in>set (map home_position initParticles). near (1 / 4) q (vscale (- 1) p)"
    by (simp add: symmetric_about_origin_def list_all_iff list_ex_iff)
  with first_home obtain q where q: "q \<in> set (map home_position initParticles)"
    and n: "near (1 / 4) q (vscale (- 1) (- 15 / 7, - 15 / 7, - 15 / 7))"
    by blast
  obtain a b c where abc: "q = (a, b, c)" by (cases q) auto
  with q have "c \<le> 25 / 14" using home_z_bound by blast
  moreover from n abc have "\<bar>c - 15 / 7\<bar> \<le> 1 / 4" by simp
  ultimately show False by simp
qed



section \<open>Every particle lands in one bin\<close>



section \<open>The cached speed\<close>

text \<open>
  The physics shader computes \<open>speed\<close> from the velocity it stores, after the boundary
  correction.
\<close>

lemma gpu_speed_is_current:
  "speed (physics_main u rn p) = vlength (velocity (physics_main u rn p))"
  by (simp add: physics_main_def Let_def)

lemma sqrt9: "sqrt 9 = 3"
  using real_sqrt_abs [of 3] by simp

lemma sqrt_97_20_sq: "sqrt (9409 / 400) = 97 / 20"
  using real_sqrt_abs [of "97 / 20"] by (simp add: power2_eq_square)

text \<open>The origin is a lattice position: it is the home of particle 342.\<close>

lemma origin_is_home: "home_position (initParticles ! 342) = (0, 0, 0)"
proof -
  let ?keys = "List.product (cells 6) [False, True]"
  have len: "length ?keys = 588" by (simp add: length_cells)
  have "cells 6 ! 171 = (3, 3, 3)"
    by (simp add: cells_def product_nth side_value)
  moreover have "length [False, True] = 2" by simp
  moreover have "?keys ! 342
      = (cells 6 ! (342 div length [False, True]), [False, True] ! (342 mod length [False, True]))"
    by (rule product_nth) (simp add: length_cells)
  ultimately have "?keys ! 342 = ((3, 3, 3), False)"
    by (simp only:) simp
  then have "map home_position initParticles ! 342 = atom (3, 3, 3) False"
    unfolding homes_first_layers using len by (simp add: PARTICLE_COUNT_def)
  moreover have "atom (3, 3, 3) False = (0, 0, 0)"
    by (simp add: atom_def lattice_point_def side_value spacing_value)
  ultimately show ?thesis by (simp add: initParticles_length PARTICLE_COUNT_def)
qed

text \<open>
  C1 fails on the fallback. \<^verbatim>\<open>updatePhysics\<close> writes \<open>speed\<close> before the soft
  boundary changes the velocity. For the particle whose home is the origin, at rest at
  \<open>(5, 0, 0)\<close>, one tick with \<open>dt = 0.05\<close> and \<open>tOrder = 1\<close> stores the speed 3,
  the magnitude before the correction, while the stored velocity has magnitude 3.035.
\<close>

theorem fallback_speed_is_stale:
  "fallback_step (1 / 20) 1 r
     \<lparr>position = (5, 0, 0), velocity = (0, 0, 0), home_position = (0, 0, 0), speed = 0\<rparr>
   = \<lparr>position = (97 / 20, 0, 0), velocity = (- 607 / 200, 0, 0),
      home_position = (0, 0, 0), speed = 3\<rparr>
   \<and> vlength (velocity (fallback_step (1 / 20) 1 r
     \<lparr>position = (5, 0, 0), velocity = (0, 0, 0), home_position = (0, 0, 0), speed = 0\<rparr>))
     = 607 / 200"
proof -
  have "sqrt (368449 / 40000) = 607 / 200"
    using real_sqrt_abs [of "607 / 200"] by (simp add: power2_eq_square)
  then have v: "vlength (- 607 / 200, 0, 0) = 607 / 200" by (simp add: power2_eq_square)
  have e: "fallback_step (1 / 20) 1 r
     \<lparr>position = (5, 0, 0), velocity = (0, 0, 0), home_position = (0, 0, 0), speed = 0\<rparr>
   = \<lparr>position = (97 / 20, 0, 0), velocity = (- 607 / 200, 0, 0),
      home_position = (0, 0, 0), speed = 3\<rparr>"
    by (cases r) (simp add: fallback_step_def Let_def sqrt9 sqrt_97_20_sq power2_eq_square)
  show ?thesis unfolding e using v by simp
qed

section \<open>The integration step in vector form\<close>

lemma vsub_zero [simp]: "vsub v (0, 0, 0) = v"
  by (cases v) simp

lemma vscale_zero_vec [simp]: "vscale s (0, 0, 0) = (0, 0, 0)"
  by simp

lemma fallback_step_fields:
  "position (fallback_step dt t r p) = moved dt t r p"
  "velocity (fallback_step dt t r p) = corrected dt t r p"
  "home_position (fallback_step dt t r p) = home_position p"
  "speed (fallback_step dt t r p) = vlength (clamp_speed (kick dt t r p))"
proof -
  obtain x y z where x: "position p = (x, y, z)" by (cases "position p") auto
  obtain vx vy vz where v: "velocity p = (vx, vy, vz)" by (cases "velocity p") auto
  obtain hx hy hz where h: "home_position p = (hx, hy, hz)" by (cases "home_position p") auto
  obtain rx ry rz where r: "r = (rx, ry, rz)" by (cases r) auto
  define vx1 where "vx1 = vx * (999 / 1000 + (97 / 100 - 999 / 1000) * t) + ((hx - x) * 12 * t + rx * 4 * (1 - t)) * dt"
  define vy1 where "vy1 = vy * (999 / 1000 + (97 / 100 - 999 / 1000) * t) + ((hy - y) * 12 * t + ry * 4 * (1 - t)) * dt"
  define vz1 where "vz1 = vz * (999 / 1000 + (97 / 100 - 999 / 1000) * t) + ((hz - z) * 12 * t + rz * 4 * (1 - t)) * dt"
  have k: "kick dt t (rx, ry, rz) p = (vx1, vy1, vz1)"
    by (simp add: kick_def x v h vx1_def vy1_def vz1_def algebra_simps)
  obtain a b c where c: "clamp_speed (vx1, vy1, vz1) = (a, b, c)"
    by (cases "clamp_speed (vx1, vy1, vz1)") auto
  have c': "(if 8 < sqrt (vx1\<^sup>2 + vy1\<^sup>2 + vz1\<^sup>2)
             then (vx1 * (8 / sqrt (vx1\<^sup>2 + vy1\<^sup>2 + vz1\<^sup>2)),
                   vy1 * (8 / sqrt (vx1\<^sup>2 + vy1\<^sup>2 + vz1\<^sup>2)),
                   vz1 * (8 / sqrt (vx1\<^sup>2 + vy1\<^sup>2 + vz1\<^sup>2)))
             else (vx1, vy1, vz1)) = (a, b, c)"
    using c by (auto simp: clamp_speed_def Let_def split: if_splits)
  have m: "moved dt t (rx, ry, rz) p = (x + a * dt, y + b * dt, z + c * dt)"
    by (simp add: moved_def k c x)
  show "position (fallback_step dt t r p) = moved dt t r p"
    apply (simp only: fallback_step_def Let_def x v h r prod.case)
    apply (simp only: vx1_def [symmetric] vy1_def [symmetric] vz1_def [symmetric])
    apply (simp only: c' prod.case)
    apply (simp add: m)
    done
  show "home_position (fallback_step dt t r p) = home_position p"
    apply (simp only: fallback_step_def Let_def x v h r prod.case)
    apply (simp only: vx1_def [symmetric] vy1_def [symmetric] vz1_def [symmetric])
    apply (simp only: c' prod.case)
    apply simp
    done
  show "velocity (fallback_step dt t r p) = corrected dt t r p"
    apply (simp only: fallback_step_def Let_def x v h r prod.case)
    apply (simp only: vx1_def [symmetric] vy1_def [symmetric] vz1_def [symmetric])
    apply (simp only: c' prod.case)
    apply (simp add: corrected_def k c m boundary_push_def field_simps)
    done
  show "speed (fallback_step dt t r p) = vlength (clamp_speed (kick dt t r p))"
    apply (simp only: fallback_step_def Let_def x v h r prod.case)
    apply (simp only: vx1_def [symmetric] vy1_def [symmetric] vz1_def [symmetric])
    apply (simp only: c' prod.case)
    apply (simp add: k c)
    done
qed

lemma physics_main_fields:
  "position (physics_main (physics_uniforms dt t) r p) = moved dt t r p"
  "velocity (physics_main (physics_uniforms dt t) r p) = corrected dt t r p"
  "home_position (physics_main (physics_uniforms dt t) r p) = home_position p"
proof -
  obtain x y z where x: "position p = (x, y, z)" by (cases "position p") auto
  obtain vx vy vz where v: "velocity p = (vx, vy, vz)" by (cases "velocity p") auto
  obtain hx hy hz where h: "home_position p = (hx, hy, hz)" by (cases "home_position p") auto
  obtain rx ry rz where r: "r = (rx, ry, rz)" by (cases r) auto
  have k: "vadd (vscale (mix (999 / 1000) (97 / 100) t) (velocity p))
             (vscale dt (vadd (vscale t (vscale 12 (vsub (home_position p) (position p))))
                              (vscale (1 - t) (vscale 4 r))))
           = kick dt t r p"
    by (simp add: kick_def mix_def x v h r field_simps)
  show "position (physics_main (physics_uniforms dt t) r p) = moved dt t r p"
    by (simp add: physics_main_def physics_uniforms_def Let_def k moved_def clamp_speed_def)
  show "home_position (physics_main (physics_uniforms dt t) r p) = home_position p"
    by (simp add: physics_main_def Let_def)
  have "vscale 2 (vscale (vlength q - 45 / 10) (normalize q))
      = vscale (2 * (vlength q - 9 / 2) / vlength q) q" for q
    by (cases q) (simp add: normalize_def field_simps)
  then show "velocity (physics_main (physics_uniforms dt t) r p) = corrected dt t r p"
    by (simp add: physics_main_def physics_uniforms_def Let_def k moved_def corrected_def
        clamp_speed_def boundary_push_def)
qed

section \<open>Lengths of vectors\<close>

lemma vlength_nonneg [simp]: "0 \<le> vlength v"
  by (cases v) simp

lemma vlength_sq: "(vlength v)\<^sup>2 = vdot v v"
  by (cases v) (simp add: power2_eq_square)

lemma vdot_nonneg [simp]: "0 \<le> vdot v v"
  by (cases v) simp

lemma vlength_vscale: "vlength (vscale s v) = \<bar>s\<bar> * vlength v"
proof -
  obtain x y z where v: "v = (x, y, z)" by (cases v) auto
  have "(x * s)\<^sup>2 + (y * s)\<^sup>2 + (z * s)\<^sup>2 = s\<^sup>2 * (x\<^sup>2 + y\<^sup>2 + z\<^sup>2)"
    by (simp add: power2_eq_square algebra_simps)
  then show ?thesis by (simp add: v real_sqrt_mult)
qed

lemma vlength_x_axis [simp]: "vlength (a, 0, 0) = \<bar>a\<bar>"
  by simp

lemma vdot_sq_le: "(vdot a b)\<^sup>2 \<le> vdot a a * vdot b b"
proof -
  obtain a1 a2 a3 where a: "a = (a1, a2, a3)" by (cases a) auto
  obtain b1 b2 b3 where b: "b = (b1, b2, b3)" by (cases b) auto
  have "vdot a a * vdot b b - (vdot a b)\<^sup>2
      = (a1 * b2 - a2 * b1)\<^sup>2 + (a1 * b3 - a3 * b1)\<^sup>2 + (a2 * b3 - a3 * b2)\<^sup>2"
    by (simp add: a b power2_eq_square algebra_simps)
  moreover have "0 \<le> (a1 * b2 - a2 * b1)\<^sup>2 + (a1 * b3 - a3 * b1)\<^sup>2 + (a2 * b3 - a3 * b2)\<^sup>2"
    by simp
  ultimately show ?thesis by linarith
qed

lemma cauchy_schwarz: "vdot a b \<le> vlength a * vlength b"
proof -
  have "(vdot a b)\<^sup>2 \<le> (vlength a * vlength b)\<^sup>2"
    using vdot_sq_le [of a b] by (simp add: power_mult_distrib vlength_sq)
  then have "\<bar>vdot a b\<bar> \<le> \<bar>vlength a * vlength b\<bar>"
    by (simp only: abs_le_square_iff)
  then show ?thesis by simp
qed

lemma vdot_vadd_self:
  "vdot (vadd a b) (vadd a b) = vdot a a + 2 * vdot a b + vdot b b"
  by (cases a; cases b) (simp add: algebra_simps)

lemma vdot_vsub_self:
  "vdot (vsub a b) (vsub a b) = vdot a a - 2 * vdot a b + vdot b b"
  by (cases a; cases b) (simp add: algebra_simps)

lemma vlength_triangle: "vlength (vadd a b) \<le> vlength a + vlength b"
proof (rule power2_le_imp_le)
  have "(vlength (vadd a b))\<^sup>2 = vdot a a + 2 * vdot a b + vdot b b"
    by (simp add: vlength_sq vdot_vadd_self)
  also have "\<dots> \<le> vdot a a + 2 * (vlength a * vlength b) + vdot b b"
    using cauchy_schwarz [of a b] by simp
  also have "\<dots> = (vlength a + vlength b)\<^sup>2"
    by (simp add: power2_sum vlength_sq)
  finally show "(vlength (vadd a b))\<^sup>2 \<le> (vlength a + vlength b)\<^sup>2" .
qed simp

lemma vlength_vsub_le: "vlength (vsub a b) \<le> vlength a + vlength b"
proof -
  have "vsub a b = vadd a (vscale (- 1) b)" by (cases a; cases b) simp
  then show ?thesis using vlength_triangle [of a "vscale (- 1) b"] by (simp add: vlength_vscale)
qed




section \<open>The velocity after one step\<close>





section \<open>The density splat\<close>

lemma splat_cell_update:
  "splat_cell u p dz dy dx d =
     (if splat_ok u p (dz, dy, dx)
      then d(splat_idx u p (dz, dy, dx) := d (splat_idx u p (dz, dy, dx)) + splat_val u p (dz, dy, dx))
      else d)"
  by (auto simp: splat_cell_def splat_ok_def splat_idx_def splat_val_def Let_def split: prod.splits)

lemma fold_point_updates:
  fixes d :: "nat \<Rightarrow> 32 word"
  shows "fold (\<lambda>off d. if ok off then d(idx off := d (idx off) + val off) else d) offs d k
     = d k + sum_list (map val (filter (\<lambda>off. ok off \<and> idx off = k) offs))"
  by (induction offs arbitrary: d) auto

lemma splat_main_sum:
  "splat_main u p d k
     = d k + sum_list (map (splat_val u p)
         (filter (\<lambda>off. splat_ok u p off \<and> splat_idx u p off = k) (offsets \<lceil>splat_radius u\<rceil>)))"
proof -
  let ?r = "\<lceil>splat_radius u\<rceil>"
  have inner: "fold (\<lambda>dy. fold (\<lambda>dx. splat_cell u p dz dy dx) [- ?r..?r]) [- ?r..?r]
      = fold (\<lambda>(dy, dx). splat_cell u p dz dy dx) (List.product [- ?r..?r] [- ?r..?r])" for dz
    by (rule ext) (rule fold_product)
  have "splat_main u p d = fold (\<lambda>(dz, dy, dx). splat_cell u p dz dy dx) (offsets ?r) d"
    unfolding splat_main_def Let_def offsets_def inner
    by (rule fold_product [of "\<lambda>dz (dy, dx). splat_cell u p dz dy dx"])
  also have "(\<lambda>(dz, dy, dx). splat_cell u p dz dy dx)
      = (\<lambda>off d. if splat_ok u p off
           then d(splat_idx u p off := d (splat_idx u p off) + splat_val u p off) else d)"
    by (intro ext) (simp add: splat_cell_update split: prod.splits)
  finally show ?thesis by (simp only: fold_point_updates)
qed

lemma cell_of_index:
  fixes x y z :: nat
  assumes "x < 64" "y < 64"
  shows "(x + y * 64 + z * 64 * 64) mod 64 = x"
    and "(x + y * 64 + z * 64 * 64) div 64 mod 64 = y"
    and "(x + y * 64 + z * 64 * 64) div 64 div 64 = z"
proof -
  have e: "x + y * 64 + z * 64 * 64 = x + 64 * (y + 64 * z)" by simp
  have m: "(a + 64 * w) mod 64 = a" "(a + 64 * w) div 64 = w" if "a < 64" for a w :: nat
    using that by simp_all
  show "(x + y * 64 + z * 64 * 64) mod 64 = x"
    unfolding e by (rule m(1) [OF assms(1)])
  show "(x + y * 64 + z * 64 * 64) div 64 mod 64 = y"
    unfolding e m(2) [OF assms(1)] by (rule m(1) [OF assms(2)])
  show "(x + y * 64 + z * 64 * 64) div 64 div 64 = z"
    unfolding e m(2) [OF assms(1)] by (rule m(2) [OF assms(2)])
qed

lemma gridIndex_inj:
  assumes "x < 64" "y < 64" "z < 64" "x' < 64" "y' < 64" "z' < 64"
    "gridIndex density_uniforms x y z = gridIndex density_uniforms x' y' z'"
  shows "x = x' \<and> y = y' \<and> z = z'"
proof -
  have "x + y * 64 + z * 64 * 64 < 2 ^ 32" "x' + y' * 64 + z' * 64 * 64 < 2 ^ 32"
    using assms by simp_all
  then have "x + y * 64 + z * 64 * 64 = x' + y' * 64 + z' * 64 * 64"
    using assms(7) by (simp add: gridIndex_def density_uniforms_def)
  then show ?thesis
    using cell_of_index [OF assms(1,2), of z] cell_of_index [OF assms(4,5), of z'] by metis
qed

lemma ceil_radius: "\<lceil>splat_radius density_uniforms\<rceil> = 2"
  by (simp add: density_uniforms_def)

lemma offsets_bounds:
  "(dz, dy, dx) \<in> set (offsets r) \<longleftrightarrow> \<bar>dz\<bar> \<le> r \<and> \<bar>dy\<bar> \<le> r \<and> \<bar>dx\<bar> \<le> r"
  by (auto simp: offsets_def)

lemma distinct_offsets: "distinct (offsets r)"
  by (simp add: offsets_def distinct_product)

text \<open>
  C3, as amended. Splatting one particle (stationary at a cell centre, or any other)
  adds exactly zero to every grid cell whose index differs from the particle's floored
  cell by more than \<open>ceil(splat_radius) = 2\<close> along some axis: all density the
  particle deposits lies in the block of \<open>5 x 5 x 5\<close> cells around its cell.
\<close>

theorem splat_stays_in_block:
  assumes "x < 64" "y < 64" "z < 64"
    and "splat_center density_uniforms p = (cx, cy, cz)"
    and "2 < \<bar>int x - cx\<bar> \<or> 2 < \<bar>int y - cy\<bar> \<or> 2 < \<bar>int z - cz\<bar>"
  shows "splat_main density_uniforms p d (gridIndex density_uniforms x y z)
       = d (gridIndex density_uniforms x y z)"
proof -
  let ?u = density_uniforms
  let ?k = "gridIndex ?u x y z"
  have "\<not> (splat_ok ?u p off \<and> splat_idx ?u p off = ?k)" if "off \<in> set (offsets 2)" for off
  proof
    assume a: "splat_ok ?u p off \<and> splat_idx ?u p off = ?k"
    obtain dz dy dx where off: "off = (dz, dy, dx)" by (cases off) auto
    from that off have b: "\<bar>dz\<bar> \<le> 2" "\<bar>dy\<bar> \<le> 2" "\<bar>dx\<bar> \<le> 2"
      by (simp_all add: offsets_bounds)
    from a off assms(4) have r: "0 \<le> cx + dx" "cx + dx < 64" "0 \<le> cy + dy" "cy + dy < 64"
      "0 \<le> cz + dz" "cz + dz < 64"
      by (simp_all add: splat_ok_def density_uniforms_def)
    from a off assms(4) have "gridIndex ?u (nat (cx + dx)) (nat (cy + dy)) (nat (cz + dz)) = ?k"
      by (simp add: splat_idx_def)
    then have "nat (cx + dx) = x \<and> nat (cy + dy) = y \<and> nat (cz + dz) = z"
      using r assms(1-3) by (intro gridIndex_inj) auto
    with r b assms(5) show False by auto
  qed
  then have "filter (\<lambda>off. splat_ok ?u p off \<and> splat_idx ?u p off = ?k) (offsets 2) = []"
    by (simp add: filter_empty_conv)
  then show ?thesis by (simp add: splat_main_sum ceil_radius)
qed

lemma filter_singleton:
  assumes "distinct xs" "a \<in> set xs" "\<And>x. x \<in> set xs \<Longrightarrow> P x \<longleftrightarrow> x = a"
  shows "filter P xs = [a]"
proof -
  have "filter P xs = filter (\<lambda>x. x = a) xs"
    using assms(3) by (intro filter_cong) auto
  also have "\<dots> = [a]" using assms(1,2)
    by (induction xs) (auto simp: filter_empty_conv)
  finally show ?thesis .
qed

lemma centred_grid_pos:
  "worldToGrid density_uniforms (position centred_particle) = (65 / 2, 65 / 2, 65 / 2)"
  by (simp add: worldToGrid_def density_uniforms_def centred_particle_def)

lemma centred_center: "splat_center density_uniforms centred_particle = (32, 32, 32)"
proof -
  have "\<lfloor>65 / 2 :: real\<rfloor> = 32" by (simp add: floor_eq_iff)
  then show ?thesis by (simp add: splat_center_def centred_grid_pos)
qed

lemma exp_minus_six: "1 \<le> 1500 * exp (- 6 :: real)"
proof -
  have "exp (6 :: real) = exp 1 ^ 6"
    using exp_of_nat_mult [of 6 "1 :: real"] by simp
  also have "\<dots> \<le> 3 ^ 6"
    by (intro power_mono exp_le) simp
  finally have le: "exp (6 :: real) \<le> 1500" by simp
  have "1 = exp 6 * exp (- 6 :: real)" by (simp add: mult_exp_exp)
  also have "\<dots> \<le> 1500 * exp (- 6 :: real)"
    using le by (intro mult_right_mono) simp_all
  finally show ?thesis .
qed

lemma far_corner_contribution:
  "cell_contribution density_uniforms centred_particle (34, 34, 34) = u32 (1500 * exp (- 6))"
proof -
  have "sqrt 12 * sqrt 12 = 12" by simp
  then have "- sqrt 12 * sqrt 12 / 2 = - 6" by simp
  then show ?thesis
    by (simp add: cell_contribution_def centred_grid_pos Let_def power2_eq_square)
      (simp add: density_uniforms_def centred_particle_def)
qed

lemma far_corner_positive:
  "0 < u32 (1500 * exp (- 6))" "u32 (1500 * exp (- 6)) \<le> 1500"
proof -
  let ?x = "1500 * exp (- 6 :: real)"
  define i where "i = \<lfloor>?x\<rfloor>"
  have lo: "1 \<le> ?x" by (rule exp_minus_six)
  have "exp (- 6 :: real) \<le> 1" by simp
  then have hi: "?x \<le> 1500" by simp
  have "\<not> ?x \<le> 0" "\<not> 4294967295 \<le> ?x" using lo hi by linarith+
  then have u: "u32 ?x = nat i" by (simp only: u32_def if_False i_def)
  have "1 \<le> i" unfolding i_def using lo by (simp add: le_floor_iff)
  then show "0 < u32 ?x" unfolding u by simp
  have "i \<le> 1500" unfolding i_def using floor_mono [OF hi] by simp
  then show "u32 ?x \<le> 1500" unfolding u by simp
qed

theorem splat_stays_in_block_witness:
  "(40 :: nat) < 64 \<and> (32 :: nat) < 64
   \<and> splat_center density_uniforms centred_particle = (32, 32, 32)
   \<and> (2 < \<bar>int 40 - 32\<bar> \<or> 2 < \<bar>int 32 - 32\<bar>)
   \<and> splat_main density_uniforms centred_particle (\<lambda>i. 0) (gridIndex density_uniforms 40 32 32) = 0"
  using splat_stays_in_block [of 40 32 32 centred_particle 32 32 32 "\<lambda>i. 0"]
  by (simp add: centred_center)

text \<open>
  Counterexample to C3 as stated: inside that block the Gaussian is not cut off at the
  radius. For the stationary particle at the centre of cell \<open>(32, 32, 32)\<close> the cell
  \<open>(34, 34, 34)\<close> is at distance \<open>sqrt 12 > 2\<close> and still receives
  \<open>u32(1500 exp(-6))\<close>, which is not zero.
\<close>

theorem splat_reaches_beyond_radius:
  "worldToGrid density_uniforms (position centred_particle) = (65 / 2, 65 / 2, 65 / 2)
   \<and> speed centred_particle = 0
   \<and> splat_radius density_uniforms
       < vlength (vsub (worldToGrid density_uniforms (position centred_particle))
                       (34 + 1 / 2, 34 + 1 / 2, 34 + 1 / 2))
   \<and> splat_main density_uniforms centred_particle (\<lambda>i. 0) (gridIndex density_uniforms 34 34 34) \<noteq> 0"
proof -
  let ?u = density_uniforms and ?p = centred_particle
  let ?k = "gridIndex ?u 34 34 34"
  have far: "splat_radius ?u < vlength (vsub (worldToGrid ?u (position ?p))
                       (34 + 1 / 2, 34 + 1 / 2, 34 + 1 / 2))"
  proof -
    have "2 < sqrt 12" by (rule real_less_rsqrt) simp
    moreover have "splat_radius density_uniforms = 2" by (simp add: density_uniforms_def)
    ultimately show ?thesis unfolding centred_grid_pos by simp
  qed
  have "filter (\<lambda>off. splat_ok ?u ?p off \<and> splat_idx ?u ?p off = ?k) (offsets 2) = [(2, 2, 2)]"
  proof (rule filter_singleton)
    show "distinct (offsets 2)" by (rule distinct_offsets)
    show "(2, 2, 2) \<in> set (offsets 2)" by (simp add: offsets_bounds)
    fix off assume mem: "off \<in> set (offsets 2)"
    obtain dz dy dx where off: "off = (dz, dy, dx)" by (cases off) auto
    from mem off have b: "\<bar>dz\<bar> \<le> 2" "\<bar>dy\<bar> \<le> 2" "\<bar>dx\<bar> \<le> 2"
      by (simp_all add: offsets_bounds)
    show "(splat_ok ?u ?p off \<and> splat_idx ?u ?p off = ?k) \<longleftrightarrow> off = (2, 2, 2)"
    proof
      assume a: "splat_ok ?u ?p off \<and> splat_idx ?u ?p off = ?k"
      then have "gridIndex ?u (nat (32 + dx)) (nat (32 + dy)) (nat (32 + dz)) = gridIndex ?u 34 34 34"
        by (simp add: splat_idx_def off centred_center)
      then have "nat (32 + dx) = 34 \<and> nat (32 + dy) = 34 \<and> nat (32 + dz) = 34"
        using b by (intro gridIndex_inj) auto
      with b show "off = (2, 2, 2)" unfolding off by auto
    next
      assume "off = (2, 2, 2)"
      then show "splat_ok ?u ?p off \<and> splat_idx ?u ?p off = ?k"
        using far_corner_positive(1)
        by (simp add: splat_ok_def splat_idx_def centred_center far_corner_contribution)
          (simp add: density_uniforms_def)
    qed
  qed
  then have "splat_main ?u ?p (\<lambda>i. 0) ?k = of_nat (u32 (1500 * exp (- 6)))"
    by (simp add: splat_main_sum ceil_radius splat_val_def centred_center far_corner_contribution)
  moreover have "(of_nat (u32 (1500 * exp (- 6))) :: 32 word) \<noteq> 0"
  proof
    assume "(of_nat (u32 (1500 * exp (- 6))) :: 32 word) = 0"
    then have "unat (of_nat (u32 (1500 * exp (- 6))) :: 32 word) = 0" by simp
    moreover have "u32 (1500 * exp (- 6)) < 2 ^ 32" using far_corner_positive(2) by simp
    ultimately have "u32 (1500 * exp (- 6)) = 0" by (simp add: unat_of_nat take_bit_nat_eq_self)
    with far_corner_positive(1) show False by simp
  qed
  ultimately have nz: "splat_main ?u ?p (\<lambda>i. 0) ?k \<noteq> 0" by simp
  have sp: "speed ?p = 0" by (simp add: centred_particle_def)
  from centred_grid_pos sp far nz show ?thesis by (intro conjI)
qed

section \<open>Spring relaxation\<close>

text \<open>
  With \<open>t_order = 1\<close> the noise term is multiplied by zero, and one step is a damped
  gradient step for \<open>potential\<close>: the energy falls in every step by at least a multiple
  of the squared carried velocities (\<open>energy_step\<close>), also when the clamp or the soft
  boundary act. So the carried velocities tend to zero, and once they are small the
  position is close to the home position (\<open>position_bound\<close>), provided the home position
  lies inside the boundary radius, as every lattice position does
  (\<open>lattice_home_inside\<close>).
\<close>

lemma kick_algebra:
  "vadd (vscale (97 / 100) v)
     (vscale (2 / 125) (vadd (vscale 12 (vsub h x)) (vscale 0 r)))
   = vsub (vscale (97 / 100) (vadd v (vscale (2 / 125) w)))
       (vscale (2 / 125) (vadd (vscale (97 / 100) w) (vscale 12 (vsub x h))))"
  by (cases v; cases h; cases x; cases r; cases w) (simp add: algebra_simps)

lemma kick_ordered:
  "kick (2 / 125) 1 r p
     = vsub (vscale (97 / 100) (carried p))
            (vscale (2 / 125) (pull (home_position p) (position p)))"
  using kick_algebra [of "velocity p" "home_position p" "position p" r "boundary_push (position p)"]
  by (simp add: kick_def carried_def pull_def)

lemma vadd_vsub_cancel [simp]: "vadd (vsub a b) b = a"
  by (cases a; cases b) simp

lemma overshoot_le:
  assumes "vlength q \<le> 9 / 2"
  shows "overshoot y \<le> vdot (vsub y q) (vsub y q)"
proof -
  have "y = vadd (vsub y q) q" by simp
  then have "vlength y \<le> vlength (vsub y q) + vlength q"
    by (metis vlength_triangle)
  then have "max 0 (vlength y - 9 / 2) \<le> vlength (vsub y q)"
    using assms by simp
  then have "(max 0 (vlength y - 9 / 2))\<^sup>2 \<le> (vlength (vsub y q))\<^sup>2"
    by (intro power_mono) simp_all
  then show ?thesis by (simp add: overshoot_def vlength_sq)
qed

lemma vdot_vscale_left: "vdot (vscale s a) b = s * vdot a b"
  by (cases a; cases b) (simp add: algebra_simps)

lemma vdot_vscale_right: "vdot a (vscale s b) = s * vdot a b"
  by (cases a; cases b) (simp add: algebra_simps)

lemma vdot_commute: "vdot a b = vdot b a"
  by (cases a; cases b) (simp add: algebra_simps)

lemma vdot_vsub_left: "vdot (vsub a b) c = vdot a c - vdot b c"
  by (cases a; cases b; cases c) (simp add: algebra_simps)

lemma vdot_vadd_left: "vdot (vadd a b) c = vdot a c + vdot b c"
  by (cases a; cases b; cases c) (simp add: algebra_simps)

lemma vdot_vsub_right: "vdot c (vsub a b) = vdot c a - vdot c b"
  by (cases a; cases b; cases c) (simp add: algebra_simps)

lemma vdot_vadd_right: "vdot c (vadd a b) = vdot c a + vdot c b"
  by (cases a; cases b; cases c) (simp add: algebra_simps)

lemma vdot_zero_left [simp]: "vdot (0, 0, 0) b = 0"
  by (cases b) simp

lemma overshoot_descent:
  "overshoot y \<le> overshoot x + vdot (boundary_push x) (vsub y x) + vdot (vsub y x) (vsub y x)"
proof (cases "vlength x > 9 / 2")
  case False
  then have "overshoot x = 0" "boundary_push x = (0, 0, 0)"
    by (simp_all add: overshoot_def boundary_push_def)
  then show ?thesis using overshoot_le [of x y] False by simp
next
  case True
  define n where "n = vlength x"
  define c where "c = (n - 9 / 2) / n"
  define q where "q = vscale (9 / 2 / n) x"
  have n: "9 / 2 < n" using True by (simp add: n_def)
  have "vlength q = 9 / 2" using n by (simp add: q_def vlength_vscale n_def [symmetric])
  then have 1: "overshoot y \<le> vdot (vsub y q) (vsub y q)" by (intro overshoot_le) simp
  have xq: "vsub x q = vscale c x"
    using n by (cases x) (simp add: q_def c_def field_simps)
  have bp: "boundary_push x = vscale (2 * c) x"
    using True by (simp add: boundary_push_def c_def n_def)
  have "vsub y q = vadd (vsub y x) (vsub x q)"
    by (cases y; cases x; cases q) simp
  then have "vdot (vsub y q) (vsub y q)
     = vdot (vsub y x) (vsub y x) + 2 * vdot (vsub y x) (vscale c x) + vdot (vscale c x) (vscale c x)"
    by (simp add: vdot_vadd_self xq)
  also have "2 * vdot (vsub y x) (vscale c x) = vdot (boundary_push x) (vsub y x)"
    by (simp add: bp vdot_vscale_left vdot_vscale_right vdot_commute)
  also have "vdot (vscale c x) (vscale c x) = overshoot x"
  proof -
    have "vdot x x = n\<^sup>2" by (simp add: n_def vlength_sq)
    then have "vdot (vscale c x) (vscale c x) = c\<^sup>2 * n\<^sup>2"
      by (simp add: vdot_vscale_left vdot_vscale_right power2_eq_square)
    also have "\<dots> = (n - 9 / 2)\<^sup>2"
      using n by (simp add: c_def power2_eq_square field_simps)
    also have "\<dots> = overshoot x" using n by (simp add: overshoot_def n_def)
    finally show ?thesis .
  qed
  finally show ?thesis using 1 by simp
qed

lemma potential_descent:
  "potential h y \<le> potential h x + vdot (pull h x) (vsub y x)
      + 697 / 100 * vdot (vsub y x) (vsub y x)"
proof -
  have q: "6 * vdot (vsub y h) (vsub y h)
      = 6 * vdot (vsub x h) (vsub x h) + vdot (vscale 12 (vsub x h)) (vsub y x)
        + 6 * vdot (vsub y x) (vsub y x)"
    by (cases x; cases y; cases h) (simp add: algebra_simps)
  have "97 / 100 * overshoot y
      \<le> 97 / 100 * (overshoot x + vdot (boundary_push x) (vsub y x) + vdot (vsub y x) (vsub y x))"
    using overshoot_descent [of y x] by simp
  then show ?thesis
    unfolding potential_def pull_def q
    by (simp add: vdot_vadd_left vdot_vscale_left algebra_simps)
qed

lemma vlength_clamped: "8 < vlength v \<Longrightarrow> vlength (clamp_speed v) = 8"
  by (simp add: clamp_speed_def vlength_vscale)

lemma clamp_speed_dot: "vdot (clamp_speed v) (clamp_speed v) \<le> vdot v (clamp_speed v)"
proof (cases "vlength v > 8")
  case False
  then show ?thesis by (simp add: clamp_speed_def)
next
  case True
  have "vdot (clamp_speed v) (clamp_speed v) = 64"
    using vlength_clamped [OF True] by (simp add: vlength_sq [symmetric])
  moreover have "vdot v v = (vlength v)\<^sup>2" by (simp add: vlength_sq)
  then have "vdot v (clamp_speed v) = 8 * vlength v"
    using True by (simp add: clamp_speed_def vdot_vscale_right power2_eq_square)
  ultimately show ?thesis using True by simp
qed

lemma clamp_speed_inactive:
  assumes "vdot (clamp_speed v) (clamp_speed v) < 64"
  shows "clamp_speed v = v"
proof (rule ccontr)
  assume "clamp_speed v \<noteq> v"
  then have t: "vlength v > 8" by (auto simp: clamp_speed_def split: if_splits)
  have "vdot (clamp_speed v) (clamp_speed v) = 64"
    using vlength_clamped [OF t] by (simp add: vlength_sq [symmetric])
  with assms show False by simp
qed

lemma kick_noise_free: "kick dt 1 r p = kick dt 1 (0, 0, 0) p"
  by (cases r) (simp add: kick_def)

lemma carried_next:
  assumes "follows p p'"
  shows "carried p' = clamp_speed (kick (2 / 125) 1 (0, 0, 0) p)"
  using assms by (simp add: follows_def carried_def corrected_def)

lemma moved_difference:
  "vsub (moved dt t r p) (position p) = vscale dt (clamp_speed (kick dt t r p))"
  by (cases "position p"; cases "clamp_speed (kick dt t r p)") (simp add: moved_def)

lemma energy_step:
  assumes "follows p p'"
  shows "energy p' \<le> energy p - 3 / 200 * vdot (carried p) (carried p)
           - 1 / 100 * vdot (carried p') (carried p')"
proof -
  define u where "u = carried p"
  define u' where "u' = carried p'"
  define h where "h = home_position p"
  define x where "x = position p"
  define G where "G = pull h x"
  define v1 where "v1 = kick (2 / 125) 1 (0, 0, 0) p"
  have u': "u' = clamp_speed v1"
    unfolding u'_def v1_def by (rule carried_next [OF assms])
  have v1: "v1 = vsub (vscale (97 / 100) u) (vscale (2 / 125) G)"
    unfolding v1_def u_def G_def h_def x_def by (rule kick_ordered)
  have x': "position p' = moved (2 / 125) 1 (0, 0, 0) p" and h': "home_position p' = h"
    using assms by (simp_all add: follows_def h_def)
  have d: "vsub (position p') x = vscale (2 / 125) u'"
    unfolding x' x_def u' v1_def by (rule moved_difference)
  have "potential h (position p') \<le> potential h x + vdot G (vsub (position p') x)
      + 697 / 100 * vdot (vsub (position p') x) (vsub (position p') x)"
    unfolding G_def by (rule potential_descent)
  then have 1: "potential h (position p')
      \<le> potential h x + 2 / 125 * vdot G u' + 697 / 100 * (4 / 15625) * vdot u' u'"
    unfolding d by (simp add: vdot_vscale_left vdot_vscale_right)
  have 2: "vdot v1 u' = 97 / 100 * vdot u u' - 2 / 125 * vdot G u'"
    unfolding v1 by (simp add: vdot_vsub_left vdot_vscale_left)
  have 3: "vdot u' u' \<le> vdot v1 u'"
    unfolding u' by (rule clamp_speed_dot)
  have "0 \<le> vdot (vsub u u') (vsub u u')" by simp
  then have 4: "2 * vdot u u' \<le> vdot u u + vdot u' u'"
    by (simp add: vdot_vsub_self)
  have 5: "0 \<le> vdot u' u'" by simp
  have "potential h (position p') + vdot u' u' / 2
      \<le> potential h x + vdot u u / 2 - 3 / 200 * vdot u u - 1 / 100 * vdot u' u'"
    using 1 2 3 4 5 by linarith
  then show ?thesis
    by (simp add: energy_def h' u_def [symmetric] u'_def [symmetric] h_def [symmetric]
        x_def [symmetric])
qed

lemma push_monotone:
  assumes "vlength h \<le> 9 / 2"
  shows "0 \<le> vdot (boundary_push x) (vsub x h)"
proof (cases "vlength x > 9 / 2")
  case False
  then show ?thesis by (simp add: boundary_push_def)
next
  case True
  define n where "n = vlength x"
  have n: "9 / 2 < n" using True by (simp add: n_def)
  have "vdot x h \<le> n * vlength h" unfolding n_def by (rule cauchy_schwarz)
  also have "\<dots> \<le> n * n" using assms n by (intro mult_left_mono) simp_all
  finally have "0 \<le> vdot x x - vdot x h" by (simp add: n_def vlength_sq [symmetric] power2_eq_square)
  moreover have "0 \<le> 2 * (n - 9 / 2) / n" using n by simp
  ultimately have "0 \<le> 2 * (n - 9 / 2) / n * (vdot x x - vdot x h)"
    by (intro mult_nonneg_nonneg)
  moreover have bp: "boundary_push x = vscale (2 * (n - 9 / 2) / n) x"
    using True by (simp add: boundary_push_def n_def)
  have "vdot (boundary_push x) (vsub x h) = 2 * (n - 9 / 2) / n * (vdot x x - vdot x h)"
    unfolding bp by (simp only: vdot_vscale_left vdot_vsub_right right_diff_distrib)
  ultimately show ?thesis by (simp only:)
qed

lemma pull_lower:
  assumes "vlength h \<le> 9 / 2"
  shows "12 * vlength (vsub x h) \<le> vlength (pull h x)"
proof (cases "vlength (vsub x h) = 0")
  case True
  then show ?thesis by simp
next
  case False
  define e where "e = vsub x h"
  have pos: "0 < vlength e" using False vlength_nonneg [of e] unfolding e_def by linarith
  have "12 * (vlength e * vlength e) = 12 * vdot e e"
    by (simp add: vlength_sq [symmetric] power2_eq_square)
  also have "\<dots> \<le> vdot (pull h x) e"
    using push_monotone [OF assms, of x]
    by (simp add: pull_def e_def vdot_vadd_left vdot_vscale_left)
  also have "\<dots> \<le> vlength (pull h x) * vlength e" by (rule cauchy_schwarz)
  finally have "12 * vlength e * vlength e \<le> vlength (pull h x) * vlength e" by simp
  then show ?thesis using pos by (simp add: e_def)
qed

lemma position_bound:
  assumes "follows p p'" "vlength (home_position p) \<le> 9 / 2"
    and "vdot (carried p') (carried p') < 64"
  shows "vlength (vsub (position p) (home_position p))
      \<le> 125 / 24 * (vlength (carried p) + vlength (carried p'))"
proof -
  define G where "G = pull (home_position p) (position p)"
  have "carried p' = clamp_speed (kick (2 / 125) 1 (0, 0, 0) p)"
    by (rule carried_next [OF assms(1)])
  with assms(3) have "carried p' = kick (2 / 125) 1 (0, 0, 0) p"
    using clamp_speed_inactive by metis
  then have "carried p' = vsub (vscale (97 / 100) (carried p)) (vscale (2 / 125) G)"
    by (simp add: kick_ordered G_def)
  then have "vscale (2 / 125) G = vsub (vscale (97 / 100) (carried p)) (carried p')"
    by (cases "carried p'"; cases "carried p"; cases G) auto
  then have "vlength (vscale (2 / 125) G)
      \<le> vlength (vscale (97 / 100) (carried p)) + vlength (carried p')"
    by (simp add: vlength_vsub_le)
  moreover have "vlength (vscale (2 / 125) G) = 2 / 125 * vlength G"
    "vlength (vscale (97 / 100) (carried p)) = 97 / 100 * vlength (carried p)"
    by (simp_all add: vlength_vscale)
  moreover have "0 \<le> vlength (carried p)" by simp
  ultimately have "2 / 125 * vlength G \<le> vlength (carried p) + vlength (carried p')"
    by linarith
  moreover have "12 * vlength (vsub (position p) (home_position p)) \<le> vlength G"
    unfolding G_def by (rule pull_lower [OF assms(2)])
  ultimately show ?thesis by simp
qed

lemma energy_nonneg: "0 \<le> energy p"
  by (simp add: energy_def potential_def overshoot_def)

lemma vlength_less_of_sq:
  assumes "vdot u u < d\<^sup>2" "0 < d"
  shows "vlength u < d"
proof -
  have "(vlength u)\<^sup>2 < d\<^sup>2" using assms(1) by (simp add: vlength_sq)
  then show ?thesis using assms(2) by (rule power2_less_imp_less [OF _ less_imp_le])
qed

lemma relaxing_sequence:
  fixes s :: "nat \<Rightarrow> Particle"
  assumes step: "\<And>n. follows (s n) (s (Suc n))"
    and home: "vlength (home_position (s 0)) \<le> 9 / 2"
    and eps: "0 < eps"
  shows "\<exists>N. \<forall>n\<ge>N. vlength (vsub (position (s n)) (home_position (s n))) < eps"
proof -
  define E where "E n = energy (s n)" for n
  define A where "A n = vdot (carried (s n)) (carried (s n))" for n
  have hm: "home_position (s n) = home_position (s 0)" for n
    by (induction n) (use step in \<open>auto simp: follows_def\<close>)
  have dec: "E (Suc n) \<le> E n - 3 / 200 * A n - 1 / 100 * A (Suc n)" for n
    unfolding E_def A_def by (rule energy_step [OF step])
  have A0: "0 \<le> A n" for n by (simp add: A_def)
  have "E (Suc n) \<le> E n" for n using dec [of n] A0 [of n] A0 [of "Suc n"] by linarith
  then have "decseq E" by (simp add: decseq_Suc_iff)
  moreover have "\<forall>n. 0 \<le> E n" by (simp add: E_def energy_nonneg)
  ultimately obtain L where L: "E \<longlonglongrightarrow> L" by (rule decseq_convergent)
  have "(\<lambda>n. E n - E (Suc n)) \<longlonglongrightarrow> L - L"
    by (intro tendsto_diff L LIMSEQ_Suc)
  then have diff: "(\<lambda>n. E n - E (Suc n)) \<longlonglongrightarrow> 0" by simp
  define d where "d = min 8 (12 * eps / 125)"
  have d: "0 < d" "d \<le> 8" "125 / 12 * d \<le> eps" using eps by (simp_all add: d_def)
  have "0 < 3 / 200 * d\<^sup>2" using d(1) by simp
  from LIMSEQ_D [OF diff this]
  obtain N where N: "\<And>n. n \<ge> N \<Longrightarrow> \<bar>E n - E (Suc n)\<bar> < 3 / 200 * d\<^sup>2" by auto
  have small: "A n < d\<^sup>2" if "n \<ge> N" for n
    using N [OF that] dec [of n] A0 [of "Suc n"] by linarith
  have "vlength (vsub (position (s n)) (home_position (s n))) < eps" if n: "n \<ge> N" for n
  proof -
    have a: "A n < d\<^sup>2" "A (Suc n) < d\<^sup>2" using n by (simp_all add: small)
    have "d\<^sup>2 \<le> 8\<^sup>2" using d(1,2) by (intro power_mono) simp_all
    with a(2) have "vdot (carried (s (Suc n))) (carried (s (Suc n))) < 64"
      by (simp add: A_def)
    moreover have "vlength (home_position (s n)) \<le> 9 / 2"
      unfolding hm [of n] by (rule home)
    ultimately have "vlength (vsub (position (s n)) (home_position (s n)))
        \<le> 125 / 24 * (vlength (carried (s n)) + vlength (carried (s (Suc n))))"
      using step [of n] by (intro position_bound)
    then have b: "vlength (vsub (position (s n)) (home_position (s n)))
        \<le> 125 / 24 * vlength (carried (s n)) + 125 / 24 * vlength (carried (s (Suc n)))"
      by (simp add: algebra_simps)
    have c: "vlength (carried (s n)) < d" "vlength (carried (s (Suc n))) < d"
      using a d(1) by (auto simp: A_def intro: vlength_less_of_sq)
    show ?thesis using b c d(3) by linarith
  qed
  then show ?thesis by blast
qed

lemma moved_noise_free: "moved dt 1 r p = moved dt 1 (0, 0, 0) p"
  unfolding moved_def kick_noise_free [of dt r p] ..

lemma corrected_noise_free: "corrected dt 1 r p = corrected dt 1 (0, 0, 0) p"
  unfolding corrected_def kick_noise_free [of dt r p] moved_noise_free [of dt r p] ..


lemma physics_main_follows: "follows p (physics_main (physics_uniforms (2 / 125) 1) r p)"
  unfolding follows_def physics_main_fields
  using moved_noise_free corrected_noise_free by simp



lemma physics_loop_homes:
  "map home_position (physics_loop dt t rnd k ps) = map home_position ps"
  by (induction ps arbitrary: k) (simp_all add: fallback_step_fields)

lemma frames_homes:
  "map home_position (particles (frames n dt t rnd r)) = map home_position (particles r)"
  by (induction n) (simp_all add: updatePhysics_def Let_def physics_loop_homes)






text \<open>
  The physics shader relaxes every particle whose home position lies inside the boundary
  radius in the same way.
\<close>

lemma shader_relaxation_converges:
  assumes "vlength (home_position p) \<le> 9 / 2" "0 < eps"
  shows "\<exists>N. \<forall>n\<ge>N. vlength (vsub (position (shader_steps n rn p))
                                  (home_position (shader_steps n rn p))) < eps"
  by (rule relaxing_sequence) (use assms in \<open>simp_all add: physics_main_follows\<close>)

end
